theory Spec2Isabelle
  imports Complex_Main
begin

section \<open>Numbers and errors\<close>

text \<open>
  Python floats and tensor elements. The three non-finite values of IEEE-754 are kept,
  since what the training code does with them is part of its behaviour; arithmetic on
  finite values is idealised as exact real arithmetic (no rounding, no overflow to
  infinity). A Python int that enters float arithmetic (the initial \<open>0\<close> of the
  accumulators) is the finite value of the same magnitude.
\<close>

datatype fl = Fin real | PInf | NInf | NaN

fun is_finite :: "fl \<Rightarrow> bool" where
  "is_finite (Fin x) = True"
| "is_finite PInf = False"
| "is_finite NInf = False"
| "is_finite NaN = False"

fun fl_add :: "fl \<Rightarrow> fl \<Rightarrow> fl" where
  "fl_add (Fin x) (Fin y) = Fin (x + y)"
| "fl_add (Fin x) PInf = PInf"
| "fl_add (Fin x) NInf = NInf"
| "fl_add PInf (Fin y) = PInf"
| "fl_add PInf PInf = PInf"
| "fl_add NInf (Fin y) = NInf"
| "fl_add NInf NInf = NInf"
| "fl_add PInf NInf = NaN"
| "fl_add NInf PInf = NaN"
| "fl_add NaN y = NaN"
| "fl_add x NaN = NaN"

fun fl_neg :: "fl \<Rightarrow> fl" where
  "fl_neg (Fin x) = Fin (- x)"
| "fl_neg PInf = NInf"
| "fl_neg NInf = PInf"
| "fl_neg NaN = NaN"

fun fl_mul :: "fl \<Rightarrow> fl \<Rightarrow> fl" where
  "fl_mul (Fin x) (Fin y) = Fin (x * y)"
| "fl_mul (Fin x) PInf = (if x = 0 then NaN else if 0 < x then PInf else NInf)"
| "fl_mul (Fin x) NInf = (if x = 0 then NaN else if 0 < x then NInf else PInf)"
| "fl_mul PInf (Fin y) = (if y = 0 then NaN else if 0 < y then PInf else NInf)"
| "fl_mul NInf (Fin y) = (if y = 0 then NaN else if 0 < y then NInf else PInf)"
| "fl_mul PInf PInf = PInf"
| "fl_mul NInf NInf = PInf"
| "fl_mul PInf NInf = NInf"
| "fl_mul NInf PInf = NInf"
| "fl_mul NaN y = NaN"
| "fl_mul x NaN = NaN"

text \<open>Comparison \<open>x <= y\<close> of IEEE-754: false as soon as one side is NaN.\<close>

fun fl_le :: "fl \<Rightarrow> fl \<Rightarrow> bool" where
  "fl_le (Fin x) (Fin y) = (x \<le> y)"
| "fl_le NaN y = False"
| "fl_le x NaN = False"
| "fl_le NInf y = True"
| "fl_le x PInf = True"
| "fl_le PInf y = False"
| "fl_le x NInf = False"

fun is_nan :: "fl \<Rightarrow> bool" where
  "is_nan NaN = True"
| "is_nan x = False"

text \<open>The exceptions the code can raise, by their Python names.\<close>

datatype error = IndexError | ZeroDivisionError | RuntimeError | KeyError | ValueError

text \<open>
  Python's true division \<open>x / n\<close> of a float (or int) by the int \<open>n\<close> that
  \<open>len\<close> returns: a zero divisor raises, also when \<open>x\<close> is a float.
\<close>

fun truediv :: "fl \<Rightarrow> nat \<Rightarrow> error + fl" where
  "truediv x 0 = Inl ZeroDivisionError"
| "truediv (Fin x) n = Inr (Fin (x / real n))"
| "truediv PInf n = Inr PInf"
| "truediv NInf n = Inr NInf"
| "truediv NaN n = Inr NaN"

text \<open>
  Indexing a tensor or a pandas \<open>iloc\<close> with one Python int: a negative index counts
  from the end, an index outside \<open>[-n, n)\<close> raises IndexError.
\<close>

definition py_index :: "'a list \<Rightarrow> int \<Rightarrow> error + 'a" where
  "py_index xs i =
     (if 0 \<le> i \<and> i < int (length xs) then Inr (xs ! nat i)
      else if - int (length xs) \<le> i \<and> i < 0 then Inr (xs ! nat (int (length xs) + i))
      else Inl IndexError)"

text \<open>Running a fallible function over a list, stopping at the first exception.\<close>

fun map_err :: "('a \<Rightarrow> error + 'b) \<Rightarrow> 'a list \<Rightarrow> error + 'b list" where
  "map_err f [] = Inr []"
| "map_err f (x # xs) =
     (case f x of
        Inl e \<Rightarrow> Inl e
      | Inr y \<Rightarrow> (case map_err f xs of Inl e \<Rightarrow> Inl e | Inr ys \<Rightarrow> Inr (y # ys)))"

section \<open>SentimentDataset and DataLoader\<close>

text \<open>
  \<^verbatim>\<open>
  class SentimentDataset(Dataset):
      def __init__(self, embeddings, labels):
          self.embeddings = embeddings
          self.labels = labels
      def __len__(self):
          return len(self.embeddings)
      def __getitem__(self, idx):
          embedding = self.embeddings[idx]
          label = self.labels.iloc[idx]
          return embedding, torch.tensor(label)
  \<close>
  \<open>embeddings\<close> is the 2-d tensor of sentence embeddings (one row per sample),
  \<open>labels\<close> the pandas series of encoded sentiments.
\<close>

type_synonym sample = "fl list \<times> int"

record SentimentDataset =
  embeddings :: "fl list list"
  labels :: "int list"

definition SentimentDataset_init :: "fl list list \<Rightarrow> int list \<Rightarrow> error + SentimentDataset" where
  "SentimentDataset_init embs labs = Inr \<lparr>embeddings = embs, labels = labs\<rparr>"

definition len_dataset :: "SentimentDataset \<Rightarrow> nat" where
  "len_dataset ds = length (embeddings ds)"

definition getitem :: "SentimentDataset \<Rightarrow> int \<Rightarrow> error + sample" where
  "getitem ds idx =
     (case py_index (embeddings ds) idx of
        Inl e \<Rightarrow> Inl e
      | Inr embedding \<Rightarrow>
          (case py_index (labels ds) idx of
             Inl e \<Rightarrow> Inl e
           | Inr label \<Rightarrow> Inr (embedding, label)))"

text \<open>
  \<open>torch.utils.data.DataLoader(dataset, batch_size=B, shuffle=s)\<close>, as its
  documentation describes it with the defaults the notebook leaves in place
  (\<open>drop_last=False\<close>, default collation): the sampler yields the indices
  \<open>0 .. len(dataset)-1\<close> in order, or in the order of a permutation drawn afresh for
  the pass when shuffling; the batch sampler groups them in runs of \<open>B\<close>, keeping a
  shorter last run; each run is fetched through \<open>__getitem__\<close> and collated into a
  pair of an embedding batch and a label batch. The permutation drawn for a pass is the
  argument \<open>perm\<close>.
\<close>

type_synonym batch = "fl list list \<times> int list"

record DataLoader =
  dataset :: SentimentDataset
  batch_size :: nat
  shuffle :: bool

text \<open>
  The constructor raises ValueError for a batch size that is not positive, and for a
  shuffling loader over an empty dataset (the random sampler refuses zero samples).
\<close>

definition DataLoader_init :: "SentimentDataset \<Rightarrow> int \<Rightarrow> bool \<Rightarrow> error + DataLoader" where
  "DataLoader_init ds B s =
     (if B \<le> 0 \<or> (s \<and> len_dataset ds = 0) then Inl ValueError
      else Inr \<lparr>dataset = ds, batch_size = nat B, shuffle = s\<rparr>)"

function chunks :: "nat \<Rightarrow> 'a list \<Rightarrow> 'a list list" where
  "chunks B xs = (if B = 0 \<or> xs = [] then [] else take B xs # chunks B (drop B xs))"
  by pat_completeness auto
termination
  by (relation "measure (\<lambda>(B, xs). length xs)") auto

declare chunks.simps [simp del]

definition sampler :: "DataLoader \<Rightarrow> nat list \<Rightarrow> nat list" where
  "sampler dl perm = (if shuffle dl then perm else [0..<len_dataset (dataset dl)])"

definition batch_sampler :: "DataLoader \<Rightarrow> nat list \<Rightarrow> nat list list" where
  "batch_sampler dl perm = chunks (batch_size dl) (sampler dl perm)"

definition len_dataloader :: "DataLoader \<Rightarrow> nat" where
  "len_dataloader dl = (len_dataset (dataset dl) + batch_size dl - 1) div batch_size dl"

definition collate :: "sample list \<Rightarrow> batch" where
  "collate ss = (map fst ss, map snd ss)"

definition fetch :: "SentimentDataset \<Rightarrow> nat list \<Rightarrow> error + batch" where
  "fetch ds idxs =
     (case map_err (\<lambda>i. getitem ds (int i)) idxs of
        Inl e \<Rightarrow> Inl e
      | Inr ss \<Rightarrow> Inr (collate ss))"

text \<open>All the batches of one pass, in the order the loader yields them.\<close>

definition batches :: "DataLoader \<Rightarrow> nat list \<Rightarrow> error + batch list" where
  "batches dl perm = map_err (fetch (dataset dl)) (batch_sampler dl perm)"

text \<open>The samples of a batch, and of a dataset, as pairs.\<close>

definition batch_samples :: "batch \<Rightarrow> sample list" where
  "batch_samples b = zip (fst b) (snd b)"

definition samples :: "SentimentDataset \<Rightarrow> sample list" where
  "samples ds = zip (embeddings ds) (labels ds)"

section \<open>SentimentClassifier\<close>

text \<open>
  \<^verbatim>\<open>
  class SentimentClassifier(nn.Module):
      def __init__(self, embedding_dim, output_dim, hidden_dim, dropout_prob):
          self.fc1 = nn.Linear(embedding_dim, hidden_dim)
          self.relu = nn.ReLU()
          self.dropout = nn.Dropout(dropout_prob)
          self.fc2 = nn.Linear(hidden_dim, output_dim)
      def forward(self, embedding):
          out = self.fc1(embedding)
          out = self.relu(out)
          out = self.dropout(out)
          out = self.fc2(out)
          return out
  \<close>
  The module holds the weights and biases of the two linear layers, the gradients that
  autograd leaves on them (\<open>.grad\<close>, absent until a backward pass), the dropout
  probability and the flag \<open>training\<close> that \<open>model.train()\<close> and
  \<open>model.eval()\<close> set. A weight matrix is the list of its rows, one per output unit.
\<close>

record params =
  fc1_weight :: "fl list list"
  fc1_bias :: "fl list"
  fc2_weight :: "fl list list"
  fc2_bias :: "fl list"

record SentimentClassifier =
  parameters :: params
  grad :: "params option"
  dropout_prob :: real
  training :: bool

definition model_train :: "SentimentClassifier \<Rightarrow> SentimentClassifier" where
  "model_train m = m\<lparr>training := True\<rparr>"

definition model_eval :: "SentimentClassifier \<Rightarrow> SentimentClassifier" where
  "model_eval m = m\<lparr>training := False\<rparr>"

definition dot :: "fl list \<Rightarrow> fl list \<Rightarrow> fl" where
  "dot r x = foldl fl_add (Fin 0) (map2 fl_mul r x)"

text \<open>
  \<open>nn.Linear\<close> on one input row: \<open>W x + b\<close>, a RuntimeError when the width of the
  input is not the width of the rows of \<open>W\<close>.
\<close>

definition linear :: "fl list list \<Rightarrow> fl list \<Rightarrow> fl list \<Rightarrow> error + fl list" where
  "linear W b x =
     (if list_all (\<lambda>r. length r = length x) W \<and> length b = length W
      then Inr (map2 (\<lambda>r bi. fl_add (dot r x) bi) W b)
      else Inl RuntimeError)"

fun relu :: "fl \<Rightarrow> fl" where
  "relu (Fin x) = Fin (max x 0)"
| "relu PInf = PInf"
| "relu NInf = Fin 0"
| "relu NaN = NaN"

text \<open>
  \<open>nn.Dropout(p)\<close>: the identity in evaluation mode; in training mode each element is
  multiplied by \<open>1/(1-p)\<close> when it is kept and by \<open>0\<close> when it is dropped (every
  element is dropped when \<open>p = 1\<close>). Which elements are kept is random: \<open>keep j\<close>
  tells it for unit \<open>j\<close> of the row.
\<close>

definition dropout :: "real \<Rightarrow> bool \<Rightarrow> (nat \<Rightarrow> bool) \<Rightarrow> fl list \<Rightarrow> fl list" where
  "dropout p train_mode keep h =
     (if train_mode
      then map (\<lambda>(j, v). fl_mul v (if p \<noteq> 1 \<and> keep j then Fin (1 / (1 - p)) else Fin 0))
             (zip [0..<length h] h)
      else h)"

definition forward_row :: "SentimentClassifier \<Rightarrow> (nat \<Rightarrow> bool) \<Rightarrow> fl list \<Rightarrow> error + fl list" where
  "forward_row m keep embedding =
     (case linear (fc1_weight (parameters m)) (fc1_bias (parameters m)) embedding of
        Inl e \<Rightarrow> Inl e
      | Inr out1 \<Rightarrow>
          (let out2 = map relu out1;
               out3 = dropout (dropout_prob m) (training m) keep out2
           in linear (fc2_weight (parameters m)) (fc2_bias (parameters m)) out3))"

text \<open>The forward pass on a batch; \<open>keep i j\<close> is the dropout draw for unit \<open>j\<close> of row \<open>i\<close>.\<close>

definition forward :: "SentimentClassifier \<Rightarrow> (nat \<Rightarrow> nat \<Rightarrow> bool) \<Rightarrow> fl list list \<Rightarrow> error + fl list list" where
  "forward m keep embedding =
     map_err (\<lambda>(i, x). forward_row m (keep i) x) (zip [0..<length embedding] embedding)"

section \<open>Accuracy\<close>

text \<open>
  \<open>torch.max(predictions, 1)\<close> scans each row from the left and keeps the first element
  that no earlier one is at least as large as; a NaN counts as larger than everything
  and ends the scan. Reducing a row with no element raises.
\<close>

fun max_loop :: "fl \<Rightarrow> nat \<Rightarrow> nat \<Rightarrow> fl list \<Rightarrow> nat" where
  "max_loop mx idx i [] = idx"
| "max_loop mx idx i (v # vs) =
     (if \<not> fl_le v mx
      then (if is_nan v then i else max_loop v i (Suc i) vs)
      else max_loop mx idx (Suc i) vs)"

fun torch_max_index :: "fl list \<Rightarrow> error + nat" where
  "torch_max_index [] = Inl IndexError"
| "torch_max_index (v # vs) = Inr (max_loop v 0 0 (v # vs))"

definition torch_max_indices :: "fl list list \<Rightarrow> error + nat list" where
  "torch_max_indices predictions = map_err torch_max_index predictions"

text \<open>
  \<open>predicted_classes == labels\<close> on two 1-d tensors: elementwise when the lengths
  agree, broadcast when one of them has a single element, a RuntimeError otherwise.
\<close>

definition eq_broadcast :: "nat list \<Rightarrow> int list \<Rightarrow> error + bool list" where
  "eq_broadcast ps ls =
     (if length ps = length ls then Inr (map2 (\<lambda>p l. int p = l) ps ls)
      else if length ps = 1 then Inr (map (\<lambda>l. int (hd ps) = l) ls)
      else if length ls = 1 then Inr (map (\<lambda>p. int p = hd ls) ps)
      else Inl RuntimeError)"

text \<open>
  \<^verbatim>\<open>
  def calculate_accuracy(predictions, labels):
      _, predicted_classes = torch.max(predictions, 1)
      correct_predictions = (predicted_classes == labels).sum().item()
      accuracy = correct_predictions / len(labels)
      return torch.tensor(accuracy)
  \<close>
\<close>

definition calculate_accuracy :: "fl list list \<Rightarrow> int list \<Rightarrow> error + fl" where
  "calculate_accuracy predictions labs =
     (case torch_max_indices predictions of
        Inl e \<Rightarrow> Inl e
      | Inr predicted_classes \<Rightarrow>
          (case eq_broadcast predicted_classes labs of
             Inl e \<Rightarrow> Inl e
           | Inr eqs \<Rightarrow>
               (let correct_predictions = length (filter id eqs)
                in truediv (Fin (real correct_predictions)) (length labs))))"

section \<open>train and evaluate\<close>

text \<open>
  What the library does behind \<open>optimizer.zero_grad()\<close>, \<open>loss.backward()\<close> and
  \<open>optimizer.step()\<close>. Gradients accumulate on the parameters until they are cleared.
  The gradient of the loss is what autograd computes (the argument \<open>autograd\<close>, a
  function of the model, the dropout draw and the batch) and the update rule is the
  optimizer's (the argument \<open>rule\<close>, from the optimizer state, the parameters and their
  gradients to the new parameters and state); the theorems below hold for every choice
  of the two.
\<close>

definition params_add :: "params \<Rightarrow> params \<Rightarrow> params" where
  "params_add g h =
     \<lparr>fc1_weight = map2 (map2 fl_add) (fc1_weight g) (fc1_weight h),
      fc1_bias = map2 fl_add (fc1_bias g) (fc1_bias h),
      fc2_weight = map2 (map2 fl_add) (fc2_weight g) (fc2_weight h),
      fc2_bias = map2 fl_add (fc2_bias g) (fc2_bias h)\<rparr>"

definition zero_grad :: "SentimentClassifier \<Rightarrow> SentimentClassifier" where
  "zero_grad m = m\<lparr>grad := None\<rparr>"

definition backward :: "params \<Rightarrow> SentimentClassifier \<Rightarrow> SentimentClassifier" where
  "backward g m =
     m\<lparr>grad := Some (case grad m of None \<Rightarrow> g | Some g0 \<Rightarrow> params_add g0 g)\<rparr>"

definition step :: "('o \<Rightarrow> params \<Rightarrow> params option \<Rightarrow> params \<times> 'o) \<Rightarrow>
    SentimentClassifier \<Rightarrow> 'o \<Rightarrow> SentimentClassifier \<times> 'o" where
  "step rule m opt =
     (case rule opt (parameters m) (grad m) of (p, opt') \<Rightarrow> (m\<lparr>parameters := p\<rparr>, opt'))"

type_synonym criterion = "fl list list \<Rightarrow> int list \<Rightarrow> error + fl"

type_synonym autograd = "SentimentClassifier \<Rightarrow> (nat \<Rightarrow> nat \<Rightarrow> bool) \<Rightarrow> batch \<Rightarrow> params"

type_synonym 'o rule = "'o \<Rightarrow> params \<Rightarrow> params option \<Rightarrow> params \<times> 'o"

text \<open>
  \<^verbatim>\<open>
  def train(model, dataloader, optimizer, criterion, device):
      model.train()
      epoch_loss = 0
      epoch_acc = 0
      for batch_idx, (embedding_batch, label_batch) in enumerate(dataloader):
          embedding_batch = embedding_batch.to(device)
          label_batch = label_batch.to(device)
          optimizer.zero_grad()
          predictions = model(embedding_batch)
          loss = criterion(predictions, label_batch)
          acc = calculate_accuracy(predictions, label_batch)
          loss.backward()
          optimizer.step()
          epoch_loss += loss.item()
          epoch_acc += acc.item()
      return epoch_loss / len(dataloader), epoch_acc / len(dataloader)
  \<close>
  Moving a tensor to the device does not change its value, so the device is left out.
  The body of the loop for one batch of indices returns the loss and the accuracy of the
  batch with the model and the optimizer state as it leaves them; an exception leaves
  them as they were when it was raised.
\<close>

definition train_batch :: "criterion \<Rightarrow> autograd \<Rightarrow> 'o rule \<Rightarrow> SentimentDataset \<Rightarrow>
    (nat \<Rightarrow> nat \<Rightarrow> bool) \<Rightarrow> nat list \<Rightarrow> SentimentClassifier \<times> 'o \<Rightarrow>
    (error + fl \<times> fl) \<times> SentimentClassifier \<times> 'o" where
  "train_batch crit ag rule ds keep idxs st =
     (case st of (m, opt) \<Rightarrow>
      (case fetch ds idxs of
         Inl e \<Rightarrow> (Inl e, m, opt)
       | Inr (embedding_batch, label_batch) \<Rightarrow>
           (let m0 = zero_grad m in
            (case forward m0 keep embedding_batch of
               Inl e \<Rightarrow> (Inl e, m0, opt)
             | Inr predictions \<Rightarrow>
                 (case crit predictions label_batch of
                    Inl e \<Rightarrow> (Inl e, m0, opt)
                  | Inr loss \<Rightarrow>
                      (case calculate_accuracy predictions label_batch of
                         Inl e \<Rightarrow> (Inl e, m0, opt)
                       | Inr acc \<Rightarrow>
                           (let m1 = backward (ag m0 keep (embedding_batch, label_batch)) m0
                            in (Inr (loss, acc), step rule m1 opt))))))))"

fun train_loop :: "criterion \<Rightarrow> autograd \<Rightarrow> 'o rule \<Rightarrow> SentimentDataset \<Rightarrow>
    (nat \<Rightarrow> nat \<Rightarrow> nat \<Rightarrow> bool) \<Rightarrow> nat \<Rightarrow> nat list list \<Rightarrow> SentimentClassifier \<times> 'o \<Rightarrow>
    fl \<times> fl \<Rightarrow> (error + fl \<times> fl) \<times> SentimentClassifier \<times> 'o" where
  "train_loop crit ag rule ds rng batch_idx [] st (epoch_loss, epoch_acc) =
     (Inr (epoch_loss, epoch_acc), st)"
| "train_loop crit ag rule ds rng batch_idx (idxs # rest) st (epoch_loss, epoch_acc) =
     (case train_batch crit ag rule ds (rng batch_idx) idxs st of
        (Inl e, st') \<Rightarrow> (Inl e, st')
      | (Inr (loss, acc), st') \<Rightarrow>
          train_loop crit ag rule ds rng (Suc batch_idx) rest st'
            (fl_add epoch_loss loss, fl_add epoch_acc acc))"

text \<open>The \<open>return\<close> statement: both accumulators divided by \<open>len(dataloader)\<close>.\<close>

definition epoch_result :: "fl \<times> fl \<Rightarrow> nat \<Rightarrow> error + fl \<times> fl" where
  "epoch_result totals n =
     (case totals of (epoch_loss, epoch_acc) \<Rightarrow>
      (case truediv epoch_loss n of
         Inl e \<Rightarrow> Inl e
       | Inr l \<Rightarrow> (case truediv epoch_acc n of Inl e \<Rightarrow> Inl e | Inr a \<Rightarrow> Inr (l, a))))"

definition train :: "criterion \<Rightarrow> autograd \<Rightarrow> 'o rule \<Rightarrow> SentimentClassifier \<Rightarrow> DataLoader \<Rightarrow> 'o \<Rightarrow>
    nat list \<Rightarrow> (nat \<Rightarrow> nat \<Rightarrow> nat \<Rightarrow> bool) \<Rightarrow> (error + fl \<times> fl) \<times> SentimentClassifier \<times> 'o" where
  "train crit ag rule model dataloader optimizer perm rng =
     (case train_loop crit ag rule (dataset dataloader) rng 0 (batch_sampler dataloader perm)
             (model_train model, optimizer) (Fin 0, Fin 0) of
        (Inl e, st) \<Rightarrow> (Inl e, st)
      | (Inr totals, st) \<Rightarrow> (epoch_result totals (len_dataloader dataloader), st))"

text \<open>
  \<^verbatim>\<open>
  def evaluate(model, dataloader, criterion, device):
      model.eval()
      epoch_loss = 0
      epoch_acc = 0
      with torch.no_grad():
          for batch_idx, (embedding_batch, label_batch) in enumerate(dataloader):
              embedding_batch = embedding_batch.to(device)
              label_batch = label_batch.to(device)
              predictions = model(embedding_batch)
              loss = criterion(predictions, label_batch)
              acc = calculate_accuracy(predictions, label_batch)
              epoch_loss += loss.item()
              epoch_acc += acc.item()
      return epoch_loss / len(dataloader), epoch_acc / len(dataloader)
  \<close>
  The only thing \<open>evaluate\<close> does to the model is \<open>model.eval()\<close>, before the loop.
\<close>

definition evaluate_batch :: "criterion \<Rightarrow> SentimentDataset \<Rightarrow> (nat \<Rightarrow> nat \<Rightarrow> bool) \<Rightarrow>
    nat list \<Rightarrow> SentimentClassifier \<Rightarrow> error + fl \<times> fl" where
  "evaluate_batch crit ds keep idxs m =
     (case fetch ds idxs of
        Inl e \<Rightarrow> Inl e
      | Inr (embedding_batch, label_batch) \<Rightarrow>
          (case forward m keep embedding_batch of
             Inl e \<Rightarrow> Inl e
           | Inr predictions \<Rightarrow>
               (case crit predictions label_batch of
                  Inl e \<Rightarrow> Inl e
                | Inr loss \<Rightarrow>
                    (case calculate_accuracy predictions label_batch of
                       Inl e \<Rightarrow> Inl e
                     | Inr acc \<Rightarrow> Inr (loss, acc)))))"

fun evaluate_loop :: "criterion \<Rightarrow> SentimentDataset \<Rightarrow> (nat \<Rightarrow> nat \<Rightarrow> nat \<Rightarrow> bool) \<Rightarrow> nat \<Rightarrow>
    nat list list \<Rightarrow> SentimentClassifier \<Rightarrow> fl \<times> fl \<Rightarrow> error + fl \<times> fl" where
  "evaluate_loop crit ds rng batch_idx [] m (epoch_loss, epoch_acc) = Inr (epoch_loss, epoch_acc)"
| "evaluate_loop crit ds rng batch_idx (idxs # rest) m (epoch_loss, epoch_acc) =
     (case evaluate_batch crit ds (rng batch_idx) idxs m of
        Inl e \<Rightarrow> Inl e
      | Inr (loss, acc) \<Rightarrow>
          evaluate_loop crit ds rng (Suc batch_idx) rest m
            (fl_add epoch_loss loss, fl_add epoch_acc acc))"

definition evaluate :: "criterion \<Rightarrow> SentimentClassifier \<Rightarrow> DataLoader \<Rightarrow> nat list \<Rightarrow>
    (nat \<Rightarrow> nat \<Rightarrow> nat \<Rightarrow> bool) \<Rightarrow> (error + fl \<times> fl) \<times> SentimentClassifier" where
  "evaluate crit model dataloader perm rng =
     (let m = model_eval model in
      (case evaluate_loop crit (dataset dataloader) rng 0 (batch_sampler dataloader perm) m
              (Fin 0, Fin 0) of
         Inl e \<Rightarrow> (Inl e, m)
       | Inr totals \<Rightarrow> (epoch_result totals (len_dataloader dataloader), m)))"

section \<open>The training loop of the notebook\<close>

text \<open>
  \<^verbatim>\<open>
  for epoch in range(num_epochs):
      train_loss, train_acc = train(model, train_dataloader_st, optimizer, criterion, device)
      test_loss, test_acc = evaluate(model, test_dataloader_st, criterion, device)
  \<close>
  The two calls act on the objects of the notebook: the model, the optimizer and the two
  loaders with their datasets.
\<close>

record 'o notebook =
  nb_model :: SentimentClassifier
  nb_optimizer :: 'o
  nb_train_dataloader :: DataLoader
  nb_test_dataloader :: DataLoader

definition notebook_train :: "criterion \<Rightarrow> autograd \<Rightarrow> 'o rule \<Rightarrow> nat list \<Rightarrow>
    (nat \<Rightarrow> nat \<Rightarrow> nat \<Rightarrow> bool) \<Rightarrow> 'o notebook \<Rightarrow> (error + fl \<times> fl) \<times> 'o notebook" where
  "notebook_train crit ag rule perm rng nb =
     (case train crit ag rule (nb_model nb) (nb_train_dataloader nb) (nb_optimizer nb) perm rng of
        (r, m, opt) \<Rightarrow> (r, nb\<lparr>nb_model := m, nb_optimizer := opt\<rparr>))"

definition notebook_evaluate :: "criterion \<Rightarrow> nat list \<Rightarrow> (nat \<Rightarrow> nat \<Rightarrow> nat \<Rightarrow> bool) \<Rightarrow>
    'o notebook \<Rightarrow> (error + fl \<times> fl) \<times> 'o notebook" where
  "notebook_evaluate crit perm rng nb =
     (case evaluate crit (nb_model nb) (nb_test_dataloader nb) perm rng of
        (r, m) \<Rightarrow> (r, nb\<lparr>nb_model := m\<rparr>))"

section \<open>predict_sentiment\<close>

text \<open>
  \<^verbatim>\<open>
  sentiment_map = {'negative': 0, 'neutral': 1, 'positive': 2}
  sentiment_map_inv = {v: k for k, v in sentiment_map.items()}
  \<close>
  A dict literal is the list of its items; the comprehension stores them one after the
  other, a later item replacing an earlier one with the same key.
\<close>

definition sentiment_map :: "(string \<times> int) list" where
  "sentiment_map = [(''negative'', 0), (''neutral'', 1), (''positive'', 2)]"

definition dict_inv :: "('k \<times> 'v) list \<Rightarrow> ('v \<rightharpoonup> 'k)" where
  "dict_inv items = foldl (\<lambda>d (k, v). d(v \<mapsto> k)) Map.empty items"

definition sentiment_map_inv :: "int \<rightharpoonup> string" where
  "sentiment_map_inv = dict_inv sentiment_map"

text \<open>\<open>.item()\<close> of a tensor: its element when it has exactly one.\<close>

fun item :: "'a list \<Rightarrow> error + 'a" where
  "item [x] = Inr x"
| "item xs = Inl RuntimeError"

text \<open>
  \<^verbatim>\<open>
  def predict_sentiment(model, sentence_transformer_model, sentence, device, sentiment_map_inv):
      model.eval()
      processed_sentence = preprocess_text_st(sentence)
      embedding = sentence_transformer_model.encode([processed_sentence], convert_to_tensor=True).to(device)
      prediction = model(embedding)
      _, predicted_class = torch.max(prediction, 1)
      predicted_sentiment_index = predicted_class.item()
      predicted_sentiment = sentiment_map_inv[predicted_sentiment_index]
      return predicted_sentiment
  \<close>
  The text cleaning \<open>preprocess_text_st\<close> (regular expressions and the stop-word corpus
  of nltk) and the sentence encoder are arguments: \<open>encode s\<close> is the embedding of the
  sentence \<open>s\<close>, and the encoder returns one row per sentence it is given.
\<close>

definition predict_sentiment :: "SentimentClassifier \<Rightarrow> (string \<Rightarrow> fl list) \<Rightarrow> (string \<Rightarrow> string) \<Rightarrow>
    string \<Rightarrow> (int \<rightharpoonup> string) \<Rightarrow> (nat \<Rightarrow> nat \<Rightarrow> bool) \<Rightarrow> (error + string) \<times> SentimentClassifier" where
  "predict_sentiment model encode preprocess_text_st sentence map_inv keep =
     (let m = model_eval model;
          processed_sentence = preprocess_text_st sentence;
          embedding = map encode [processed_sentence]
      in (case forward m keep embedding of
            Inl e \<Rightarrow> (Inl e, m)
          | Inr prediction \<Rightarrow>
              (case torch_max_indices prediction of
                 Inl e \<Rightarrow> (Inl e, m)
               | Inr predicted_class \<Rightarrow>
                   (case item predicted_class of
                      Inl e \<Rightarrow> (Inl e, m)
                    | Inr predicted_sentiment_index \<Rightarrow>
                        (case map_inv (int predicted_sentiment_index) of
                           None \<Rightarrow> (Inl KeyError, m)
                         | Some predicted_sentiment \<Rightarrow> (Inr predicted_sentiment, m))))))"

section \<open>Notions the properties are stated with\<close>

text \<open>The pass draws a permutation of the indices when the loader shuffles.\<close>

definition valid_perm :: "DataLoader \<Rightarrow> nat list \<Rightarrow> bool" where
  "valid_perm dl perm = (shuffle dl \<longrightarrow> sort perm = [0..<len_dataset (dataset dl)])"

text \<open>The arithmetic mean of a list of values: their sum divided by their number.\<close>

definition arithmetic_mean :: "fl list \<Rightarrow> error + fl" where
  "arithmetic_mean xs = truediv (foldl fl_add (Fin 0) xs) (length xs)"

text \<open>
  The loss and the accuracy of each batch of an epoch, in order: for \<open>train\<close> each batch
  meets the model as the steps on the batches before it left it; for \<open>evaluate\<close> the
  model is the same throughout.
\<close>

fun train_metrics :: "criterion \<Rightarrow> autograd \<Rightarrow> 'o rule \<Rightarrow> SentimentDataset \<Rightarrow>
    (nat \<Rightarrow> nat \<Rightarrow> nat \<Rightarrow> bool) \<Rightarrow> nat \<Rightarrow> nat list list \<Rightarrow> SentimentClassifier \<times> 'o \<Rightarrow>
    error + (fl \<times> fl) list" where
  "train_metrics crit ag rule ds rng batch_idx [] st = Inr []"
| "train_metrics crit ag rule ds rng batch_idx (idxs # rest) st =
     (case train_batch crit ag rule ds (rng batch_idx) idxs st of
        (Inl e, st') \<Rightarrow> Inl e
      | (Inr la, st') \<Rightarrow>
          (case train_metrics crit ag rule ds rng (Suc batch_idx) rest st' of
             Inl e \<Rightarrow> Inl e
           | Inr las \<Rightarrow> Inr (la # las)))"

fun evaluate_metrics :: "criterion \<Rightarrow> SentimentDataset \<Rightarrow> (nat \<Rightarrow> nat \<Rightarrow> nat \<Rightarrow> bool) \<Rightarrow> nat \<Rightarrow>
    nat list list \<Rightarrow> SentimentClassifier \<Rightarrow> error + (fl \<times> fl) list" where
  "evaluate_metrics crit ds rng batch_idx [] m = Inr []"
| "evaluate_metrics crit ds rng batch_idx (idxs # rest) m =
     (case evaluate_batch crit ds (rng batch_idx) idxs m of
        Inl e \<Rightarrow> Inl e
      | Inr la \<Rightarrow>
          (case evaluate_metrics crit ds rng (Suc batch_idx) rest m of
             Inl e \<Rightarrow> Inl e
           | Inr las \<Rightarrow> Inr (la # las)))"

text \<open>
  The order of \<open>torch.max\<close> on scores: \<open>x\<close> does not beat \<open>y\<close> when \<open>y\<close> is NaN
  or when \<open>x <= y\<close>; on scores free of NaN this is \<open>x <= y\<close>.
\<close>

definition not_above :: "fl \<Rightarrow> fl \<Rightarrow> bool" where
  "not_above x y = (is_nan y \<or> fl_le x y)"

text \<open>Shapes as \<open>nn.Linear\<close> builds them, for inputs of width \<open>D\<close>.\<close>

definition well_shaped :: "SentimentClassifier \<Rightarrow> nat \<Rightarrow> bool" where
  "well_shaped m D =
     (list_all (\<lambda>r. length r = D) (fc1_weight (parameters m)) \<and>
      length (fc1_bias (parameters m)) = length (fc1_weight (parameters m)) \<and>
      list_all (\<lambda>r. length r = length (fc1_weight (parameters m))) (fc2_weight (parameters m)) \<and>
      length (fc2_bias (parameters m)) = length (fc2_weight (parameters m)))"

definition output_dim :: "SentimentClassifier \<Rightarrow> nat" where
  "output_dim m = length (fc2_weight (parameters m))"

text \<open>The batch that fetching the indices \<open>idxs\<close> gives when all of them are in range.\<close>

definition batch_of :: "SentimentDataset \<Rightarrow> nat list \<Rightarrow> batch" where
  "batch_of ds idxs = (map (\<lambda>i. embeddings ds ! i) idxs, map (\<lambda>i. labels ds ! i) idxs)"

text \<open>
  \<open>k\<close> is the argmax of the row with ties broken by the lowest index: no score is
  above the one at \<open>k\<close>, and every score before \<open>k\<close> is strictly below it.
\<close>

definition first_max :: "fl list \<Rightarrow> nat \<Rightarrow> bool" where
  "first_max row k =
     (k < length row \<and> list_all (\<lambda>j. not_above (row ! j) (row ! k)) [0..<length row] \<and>
      list_all (\<lambda>j. \<not> not_above (row ! k) (row ! j)) [0..<k])"

section \<open>Example inputs\<close>

definition one_sample_loader :: DataLoader where
  "one_sample_loader =
     \<lparr>dataset = \<lparr>embeddings = [[Fin 1, Fin 0]], labels = [2]\<rparr>, batch_size = 64, shuffle = False\<rparr>"

definition two_samples :: SentimentDataset where
  "two_samples = \<lparr>embeddings = [[Fin 1, Fin 0], [Fin 0, Fin 1]], labels = [2, 0]\<rparr>"

definition three_samples :: SentimentDataset where
  "three_samples = \<lparr>embeddings = [[Fin 1, Fin 0], [Fin 0, Fin 1], [Fin 1, Fin 0]], labels = [0, 1, 2]\<rparr>"

definition example_loader :: DataLoader where
  "example_loader = \<lparr>dataset = three_samples, batch_size = 2, shuffle = False\<rparr>"

text \<open>Two inputs, two hidden units, three classes; the third class always scores \<open>0\<close>.\<close>

definition example_model :: SentimentClassifier where
  "example_model =
     \<lparr>parameters =
        \<lparr>fc1_weight = [[Fin 1, Fin 0], [Fin 0, Fin 1]], fc1_bias = [Fin 0, Fin 0],
         fc2_weight = [[Fin 1, Fin 0], [Fin 0, Fin 1], [Fin 0, Fin 0]],
         fc2_bias = [Fin 0, Fin 0, Fin 0]\<rparr>,
      grad = None, dropout_prob = 1 / 2, training = False\<rparr>"

text \<open>A loss that is linear in the score of the true class: minus the mean of these scores.\<close>

definition true_class_loss :: criterion where
  "true_class_loss predictions labs =
     (case map_err (\<lambda>(row, l). py_index row l) (zip predictions labs) of
        Inl e \<Rightarrow> Inl e
      | Inr scores \<Rightarrow>
          (case truediv (foldl fl_add (Fin 0) scores) (length labs) of
             Inl e \<Rightarrow> Inl e
           | Inr s \<Rightarrow> Inr (fl_neg s)))"

text \<open>An optimizer that counts its steps and leaves the parameters where they are.\<close>

definition counting_rule :: "nat rule" where
  "counting_rule opt p g = (p, Suc opt)"

definition parameter_gradient :: autograd where
  "parameter_gradient m keep b = parameters m"

definition keep_all :: "nat \<Rightarrow> nat \<Rightarrow> nat \<Rightarrow> bool" where
  "keep_all k i j = True"

definition drop_all :: "nat \<Rightarrow> nat \<Rightarrow> nat \<Rightarrow> bool" where
  "drop_all k i j = False"

text \<open>A dataset whose second embedding holds a NaN, batched one sample at a time.\<close>

definition nan_loader :: DataLoader where
  "nan_loader =
     \<lparr>dataset = \<lparr>embeddings = [[Fin 1, Fin 0], [NaN, Fin 0]], labels = [0, 0]\<rparr>,
      batch_size = 1, shuffle = False\<rparr>"

text \<open>The example dataset behind a loader that shuffles.\<close>

definition shuffling_loader :: DataLoader where
  "shuffling_loader = \<lparr>dataset = three_samples, batch_size = 2, shuffle = True\<rparr>"

definition empty_loader :: DataLoader where
  "empty_loader = \<lparr>dataset = \<lparr>embeddings = [], labels = []\<rparr>, batch_size = 64, shuffle = False\<rparr>"

text \<open>A stand-in for the sentence encoder: the length of the sentence and a constant.\<close>

definition length_encoder :: "string \<Rightarrow> fl list" where
  "length_encoder s = [Fin (real (length s)), Fin 3]"

section \<open>Batching\<close>

lemma DataLoader_init_batch_size:
  "DataLoader_init ds B s = Inr dl \<Longrightarrow>
   0 < batch_size dl \<and> dataset dl = ds \<and> shuffle dl = s \<and>
   (shuffle dl \<longrightarrow> 0 < len_dataset (dataset dl))"
  by (auto simp: DataLoader_init_def split: if_splits)

lemma chunks_Nil [simp]: "chunks B [] = []"
  by (simp add: chunks.simps)

lemma chunks_zero [simp]: "chunks 0 xs = []"
  by (simp add: chunks.simps)

lemma chunks_step: "0 < B \<Longrightarrow> xs \<noteq> [] \<Longrightarrow> chunks B xs = take B xs # chunks B (drop B xs)"
  by (subst chunks.simps) simp

lemma concat_chunks: "0 < B \<Longrightarrow> concat (chunks B xs) = xs"
proof (induction B xs rule: chunks.induct)
  case (1 B xs)
  show ?case
  proof (cases "xs = []")
    case True
    then show ?thesis by simp
  next
    case False
    with 1 show ?thesis by (simp add: chunks_step)
  qed
qed

lemma ceil_div_step:
  assumes "0 < B" "0 < (n::nat)"
  shows "(n + B - 1) div B = Suc ((n - B + B - 1) div B)"
proof -
  have a: "n + B - 1 = (n - 1) + B" using assms by simp
  have b: "(n - B + B - 1) div B = (n - 1) div B"
  proof (cases "B \<le> n")
    case True
    then show ?thesis by simp
  next
    case False
    then show ?thesis using assms by simp
  qed
  have "(n + B - 1) div B = ((n - 1) + B) div B" by (simp only: a)
  also have "\<dots> = (n - 1) div B + 1" by (rule div_add_self2) (use assms in simp)
  also have "\<dots> = Suc ((n - 1) div B)" by (simp only: Suc_eq_plus1)
  finally show ?thesis by (simp only: b)
qed

lemma length_chunks: "0 < B \<Longrightarrow> length (chunks B xs) = (length xs + B - 1) div B"
proof (induction B xs rule: chunks.induct)
  case (1 B xs)
  show ?case
  proof (cases "xs = []")
    case True
    with 1 show ?thesis by simp
  next
    case False
    then have pos: "0 < length xs" by simp
    have ih: "length (chunks B (drop B xs)) = (length xs - B + B - 1) div B"
      using 1 False by simp
    show ?thesis
      using ih ceil_div_step [OF 1(2) pos] 1(2) False by (simp add: chunks_step)
  qed
qed

lemma chunks_sizes:
  "0 < B \<Longrightarrow> c \<in> set (chunks B xs) \<Longrightarrow> c \<noteq> [] \<and> length c \<le> B"
proof (induction B xs arbitrary: c rule: chunks.induct)
  case (1 B xs)
  show ?case
  proof (cases "xs = []")
    case True
    with 1 show ?thesis by simp
  next
    case False
    have eq: "chunks B xs = take B xs # chunks B (drop B xs)"
      using 1(2) False by (rule chunks_step)
    from 1(3) eq have "c = take B xs \<or> c \<in> set (chunks B (drop B xs))" by simp
    then show ?thesis
    proof
      assume "c = take B xs"
      then show ?thesis using False 1(2) by simp
    next
      assume "c \<in> set (chunks B (drop B xs))"
      then show ?thesis using 1(1) 1(2) False by blast
    qed
  qed
qed

lemma chunks_full:
  "0 < B \<Longrightarrow> Suc i < length (chunks B xs) \<Longrightarrow> length (chunks B xs ! i) = B"
proof (induction B xs arbitrary: i rule: chunks.induct)
  case (1 B xs)
  show ?case
  proof (cases "xs = []")
    case True
    with 1 show ?thesis by simp
  next
    case False
    have eq: "chunks B xs = take B xs # chunks B (drop B xs)"
      using 1(2) False by (rule chunks_step)
    have rest: "chunks B (drop B xs) \<noteq> []" using 1(3) eq by auto
    then have "drop B xs \<noteq> []" by auto
    then have big: "B < length xs" by simp
    show ?thesis
    proof (cases i)
      case 0
      then show ?thesis using eq big by simp
    next
      case (Suc j)
      then have "Suc j < length (chunks B (drop B xs))" using 1(3) eq by simp
      then have "length (chunks B (drop B xs) ! j) = B" using 1(1) 1(2) False by blast
      then show ?thesis using eq Suc by simp
    qed
  qed
qed

lemma chunks_last:
  "0 < B \<Longrightarrow> xs \<noteq> [] \<Longrightarrow>
   length (last (chunks B xs)) = (if length xs mod B = 0 then B else length xs mod B)"
proof (induction B xs rule: chunks.induct)
  case (1 B xs)
  have eq: "chunks B xs = take B xs # chunks B (drop B xs)"
    using 1(2) 1(3) by (rule chunks_step)
  show ?case
  proof (cases "drop B xs = []")
    case True
    then have le: "length xs \<le> B" by simp
    have pos: "0 < length xs" using 1(3) by simp
    have "chunks B xs = [xs]" using eq True le by simp
    then show ?thesis using le pos by (cases "length xs = B") auto
  next
    case False
    then have lt: "B < length xs" by simp
    have ne: "chunks B (drop B xs) \<noteq> []" using False 1(2) by (simp add: chunks_step)
    have "length (last (chunks B (drop B xs))) =
        (if length (drop B xs) mod B = 0 then B else length (drop B xs) mod B)"
      using 1(1) 1(2) 1(3) False by blast
    moreover have "length (drop B xs) mod B = length xs mod B"
      using lt by (simp add: le_mod_geq)
    ultimately show ?thesis using eq ne by simp
  qed
qed

lemma py_index_nat: "i < length xs \<Longrightarrow> py_index xs (int i) = Inr (xs ! i)"
  by (simp add: py_index_def)

lemma getitem_nat:
  "i < length (embeddings ds) \<Longrightarrow> i < length (labels ds) \<Longrightarrow>
   getitem ds (int i) = Inr (embeddings ds ! i, labels ds ! i)"
  by (simp add: getitem_def py_index_nat)

lemma map_err_Inr: "(\<And>x. x \<in> set xs \<Longrightarrow> f x = Inr (g x)) \<Longrightarrow> map_err f xs = Inr (map g xs)"
  by (induction xs) simp_all

lemma fetch_in_range:
  assumes "\<And>i. i \<in> set idxs \<Longrightarrow> i < length (embeddings ds)"
    and "length (embeddings ds) \<le> length (labels ds)"
  shows "fetch ds idxs = Inr (map (\<lambda>i. embeddings ds ! i) idxs, map (\<lambda>i. labels ds ! i) idxs)"
proof -
  have "map_err (\<lambda>i. getitem ds (int i)) idxs
      = Inr (map (\<lambda>i. (embeddings ds ! i, labels ds ! i)) idxs)"
  proof (rule map_err_Inr)
    fix i assume "i \<in> set idxs"
    then have "i < length (embeddings ds)" by (rule assms(1))
    then show "getitem ds (int i) = Inr (embeddings ds ! i, labels ds ! i)"
      using assms(2) by (simp add: getitem_nat)
  qed
  then show ?thesis by (simp add: fetch_def collate_def comp_def)
qed

lemma batch_samples_batch_of:
  assumes "\<And>i. i \<in> set idxs \<Longrightarrow> i < length (embeddings ds)"
    and "length (embeddings ds) \<le> length (labels ds)"
  shows "batch_samples (batch_of ds idxs) = map (\<lambda>i. samples ds ! i) idxs"
proof -
  have "zip (map (\<lambda>i. embeddings ds ! i) idxs) (map (\<lambda>i. labels ds ! i) idxs)
      = map (\<lambda>i. (embeddings ds ! i, labels ds ! i)) idxs"
    by (induction idxs) simp_all
  also have "\<dots> = map (\<lambda>i. samples ds ! i) idxs"
  proof (rule map_cong [OF refl])
    fix i assume "i \<in> set idxs"
    then have "i < length (embeddings ds)" by (rule assms(1))
    then show "(embeddings ds ! i, labels ds ! i) = samples ds ! i"
      using assms(2) by (simp add: samples_def)
  qed
  finally show ?thesis by (simp add: batch_samples_def batch_of_def)
qed

lemma chunks_members: "0 < B \<Longrightarrow> c \<in> set (chunks B xs) \<Longrightarrow> set c \<subseteq> set xs"
proof -
  assume b: "0 < B" and c: "c \<in> set (chunks B xs)"
  have "set c \<subseteq> set (concat (chunks B xs))" using c by auto
  then show ?thesis using concat_chunks [OF b, of xs] by simp
qed

lemma batches_in_range:
  assumes b: "0 < batch_size dl"
    and r: "set (sampler dl perm) \<subseteq> {0..<length (embeddings (dataset dl))}"
    and l: "length (embeddings (dataset dl)) \<le> length (labels (dataset dl))"
  shows "batches dl perm = Inr (map (batch_of (dataset dl)) (batch_sampler dl perm))"
  unfolding batches_def
proof (rule map_err_Inr)
  fix c assume "c \<in> set (batch_sampler dl perm)"
  then have "set c \<subseteq> set (sampler dl perm)"
    using chunks_members [OF b] by (simp add: batch_sampler_def)
  then have "\<And>i. i \<in> set c \<Longrightarrow> i < length (embeddings (dataset dl))" using r by auto
  then show "fetch (dataset dl) c = Inr (batch_of (dataset dl) c)"
    unfolding batch_of_def using l by (rule fetch_in_range)
qed

lemma concat_batch_samples:
  assumes b: "0 < B"
    and r: "set xs \<subseteq> {0..<length (embeddings ds)}"
    and l: "length (embeddings ds) \<le> length (labels ds)"
  shows "concat (map batch_samples (map (batch_of ds) (chunks B xs))) = map (\<lambda>i. samples ds ! i) xs"
proof -
  have "map batch_samples (map (batch_of ds) (chunks B xs))
      = map (map (\<lambda>i. samples ds ! i)) (chunks B xs)"
  proof (simp, intro ballI)
    fix c assume "c \<in> set (chunks B xs)"
    then have "set c \<subseteq> set xs" using chunks_members [OF b] by blast
    then have "\<And>i. i \<in> set c \<Longrightarrow> i < length (embeddings ds)" using r by auto
    then show "batch_samples (batch_of ds c) = map ((!) (samples ds)) c"
      using l by (rule batch_samples_batch_of)
  qed
  then have "concat (map batch_samples (map (batch_of ds) (chunks B xs)))
      = map (\<lambda>i. samples ds ! i) (concat (chunks B xs))"
    by (simp only: map_concat)
  then show ?thesis using concat_chunks [OF b, of xs] by simp
qed

lemma length_batch_samples_batch_of:
  "length (batch_samples (batch_of ds idxs)) = length idxs"
  by (simp add: batch_samples_def batch_of_def)

text \<open>
  Claim C4. A loader that does not shuffle, with batch size \<open>B > 0\<close>, over a dataset
  of \<open>N\<close> samples (every embedding has its label) yields its batches without an
  exception; their samples, concatenated in order, are the samples of the dataset in
  their order; there are \<open>len(dataloader)\<close> batches; every batch but the last has
  \<open>B\<close> samples and the last has \<open>N mod B\<close>, or \<open>B\<close> when that is zero; a dataset
  of one sample gives one batch of one sample.
\<close>

theorem unshuffled_batches_cover_dataset:
  assumes ns: "\<not> shuffle dl"
    and b: "0 < batch_size dl"
    and l: "length (embeddings (dataset dl)) \<le> length (labels (dataset dl))"
  shows "\<exists>bs. batches dl perm = Inr bs
    \<and> concat (map batch_samples bs) = samples (dataset dl)
    \<and> length bs = len_dataloader dl
    \<and> (\<forall>i. Suc i < length bs \<longrightarrow> length (batch_samples (bs ! i)) = batch_size dl)
    \<and> (bs \<noteq> [] \<longrightarrow> length (batch_samples (last bs)) =
          (if len_dataset (dataset dl) mod batch_size dl = 0 then batch_size dl
           else len_dataset (dataset dl) mod batch_size dl))
    \<and> (len_dataset (dataset dl) = 1 \<longrightarrow> length bs = 1 \<and> length (batch_samples (hd bs)) = 1)"
proof -
  let ?ds = "dataset dl" and ?B = "batch_size dl"
  let ?N = "length (embeddings ?ds)"
  let ?cs = "chunks ?B [0..<?N]"
  let ?bs = "map (batch_of ?ds) ?cs"
  have smp: "sampler dl perm = [0..<?N]" using ns by (simp add: sampler_def len_dataset_def)
  then have bsm: "batch_sampler dl perm = ?cs" by (simp add: batch_sampler_def)
  have rng: "set (sampler dl perm) \<subseteq> {0..<?N}" using smp by simp
  have 1: "batches dl perm = Inr ?bs"
    using batches_in_range [OF b rng l] bsm by simp
  have "length (samples ?ds) = ?N" using l by (simp add: samples_def)
  then have "map (\<lambda>i. samples ?ds ! i) [0..<?N] = samples ?ds"
    by (metis map_nth)
  then have 2: "concat (map batch_samples ?bs) = samples ?ds"
    using concat_batch_samples [OF b _ l, of "[0..<?N]"] by simp
  have 3: "length ?bs = len_dataloader dl"
    using length_chunks [OF b, of "[0..<?N]"] by (simp add: len_dataloader_def len_dataset_def)
  have 4: "\<forall>i. Suc i < length ?bs \<longrightarrow> length (batch_samples (?bs ! i)) = ?B"
  proof (intro allI impI)
    fix i assume "Suc i < length ?bs"
    then have i: "Suc i < length ?cs" by simp
    then have "length (?cs ! i) = ?B" using chunks_full [OF b] by blast
    then show "length (batch_samples (?bs ! i)) = ?B"
      using i by (simp add: length_batch_samples_batch_of)
  qed
  have 5: "?bs \<noteq> [] \<longrightarrow> length (batch_samples (last ?bs)) =
      (if len_dataset ?ds mod ?B = 0 then ?B else len_dataset ?ds mod ?B)"
  proof
    assume ne: "?bs \<noteq> []"
    then have "[0..<?N] \<noteq> []" by auto
    then have "length (last ?cs) = (if length [0..<?N] mod ?B = 0 then ?B else length [0..<?N] mod ?B)"
      using chunks_last [OF b] by blast
    moreover have "last ?bs = batch_of ?ds (last ?cs)" using ne by (simp add: last_map)
    ultimately show "length (batch_samples (last ?bs)) =
      (if len_dataset ?ds mod ?B = 0 then ?B else len_dataset ?ds mod ?B)"
      by (simp add: length_batch_samples_batch_of len_dataset_def)
  qed
  have 6: "len_dataset ?ds = 1 \<longrightarrow> length ?bs = 1 \<and> length (batch_samples (hd ?bs)) = 1"
  proof
    assume one: "len_dataset ?ds = 1"
    then have n1: "?N = 1" by (simp add: len_dataset_def)
    have "?cs = [[0]]" using b n1 by (simp add: chunks_step)
    then show "length ?bs = 1 \<and> length (batch_samples (hd ?bs)) = 1"
      by (simp add: length_batch_samples_batch_of)
  qed
  show ?thesis using 1 2 3 4 5 6 by blast
qed

theorem unshuffled_batches_witness:
  "\<not> shuffle one_sample_loader \<and> 0 < batch_size one_sample_loader
   \<and> length (embeddings (dataset one_sample_loader)) \<le> length (labels (dataset one_sample_loader))
   \<and> (\<exists>bs. batches one_sample_loader [] = Inr bs \<and> length bs = 1
         \<and> length (batch_samples (hd bs)) = 1
         \<and> concat (map batch_samples bs) = [([Fin 1, Fin 0], 2)])"
proof -
  have h1: "\<not> shuffle one_sample_loader" by (simp add: one_sample_loader_def)
  have h2: "0 < batch_size one_sample_loader" by (simp add: one_sample_loader_def)
  have h3: "length (embeddings (dataset one_sample_loader)) \<le> length (labels (dataset one_sample_loader))"
    by (simp add: one_sample_loader_def)
  have n: "len_dataset (dataset one_sample_loader) = 1"
    by (simp add: one_sample_loader_def len_dataset_def)
  have s: "samples (dataset one_sample_loader) = [([Fin 1, Fin 0], 2)]"
    by (simp add: one_sample_loader_def samples_def)
  from unshuffled_batches_cover_dataset [OF h1 h2 h3, of "[]"] n s
  have "\<exists>bs. batches one_sample_loader [] = Inr bs \<and> length bs = 1
         \<and> length (batch_samples (hd bs)) = 1
         \<and> concat (map batch_samples bs) = [([Fin 1, Fin 0], 2)]"
    by auto
  then show ?thesis using h1 h2 h3 by blast
qed

section \<open>Retrieval and construction\<close>

text \<open>
  Claim C5, as the code has it. On a dataset of \<open>N\<close> embeddings with \<open>N\<close> labels,
  \<open>__getitem__\<close> returns sample \<open>idx\<close> for \<open>0 <= idx < N\<close>, sample \<open>N + idx\<close> for
  \<open>-N <= idx < 0\<close> (Python's indexing from the end), and raises IndexError for every
  other index.
\<close>

theorem getitem_index_range:
  assumes "length (labels ds) = length (embeddings ds)"
  shows "getitem ds idx =
     (if 0 \<le> idx \<and> idx < int (len_dataset ds) then Inr (samples ds ! nat idx)
      else if - int (len_dataset ds) \<le> idx \<and> idx < 0
        then Inr (samples ds ! nat (int (len_dataset ds) + idx))
      else Inl IndexError)"
proof -
  let ?N = "int (length (embeddings ds))"
  consider "0 \<le> idx \<and> idx < ?N" | "- ?N \<le> idx \<and> idx < 0" | "idx < - ?N \<or> ?N \<le> idx"
    by linarith
  then show ?thesis
  proof cases
    case 1
    then have "nat idx < length (embeddings ds)" by linarith
    then show ?thesis using 1 assms
      by (simp add: getitem_def py_index_def len_dataset_def samples_def)
  next
    case 2
    then have "nat (?N + idx) < length (embeddings ds)" by linarith
    then show ?thesis using 2 assms
      by (simp add: getitem_def py_index_def len_dataset_def samples_def)
  next
    case 3
    then show ?thesis using assms
      by (auto simp: getitem_def py_index_def len_dataset_def)
  qed
qed

theorem getitem_index_range_witness:
  "length (labels two_samples) = length (embeddings two_samples)
   \<and> getitem two_samples 1 = Inr ([Fin 0, Fin 1], 0)
   \<and> getitem two_samples (- 2) = Inr ([Fin 1, Fin 0], 2)
   \<and> getitem two_samples 2 = Inl IndexError
   \<and> getitem two_samples (- 3) = Inl IndexError"
proof -
  have h: "length (labels two_samples) = length (embeddings two_samples)"
    by (simp add: two_samples_def)
  have n: "len_dataset two_samples = 2" by (simp add: two_samples_def len_dataset_def)
  have s: "samples two_samples = [([Fin 1, Fin 0], 2), ([Fin 0, Fin 1], 0)]"
    by (simp add: two_samples_def samples_def)
  show ?thesis
    using h getitem_index_range [OF h, of 1] getitem_index_range [OF h, of "- 2"]
      getitem_index_range [OF h, of 2] getitem_index_range [OF h, of "- 3"]
    by (simp add: n s)
qed

theorem getitem_negative_index_counterexample:
  "len_dataset two_samples = 2 \<and> (- 1 :: int) < 0
   \<and> getitem two_samples (- 1) = Inr ([Fin 0, Fin 1], 0)"
  by (simp add: two_samples_def len_dataset_def getitem_def py_index_def)

text \<open>
  Claim C2, as the code has it. The constructor checks nothing: it never raises, it
  stores the embeddings and the labels it is given, and every sample, malformed or not,
  is returned by \<open>__getitem__\<close> as it was given.
\<close>

theorem init_stores_without_validation:
  "\<exists>ds. SentimentDataset_init embs labs = Inr ds \<and> embeddings ds = embs \<and> labels ds = labs
     \<and> (\<forall>i. i < length embs \<and> i < length labs \<longrightarrow> getitem ds (int i) = Inr (embs ! i, labs ! i))"
  by (simp add: SentimentDataset_init_def getitem_nat)

theorem init_stores_without_validation_witness:
  "\<exists>ds. SentimentDataset_init [[Fin 1, Fin 0], [Fin 0, Fin 1]] [2, 7] = Inr ds
     \<and> labels ds = [2, 7] \<and> getitem ds 1 = Inr ([Fin 0, Fin 1], 7)"
proof -
  from init_stores_without_validation [of "[[Fin 1, Fin 0], [Fin 0, Fin 1]]" "[2, 7]"]
  obtain ds where ds: "SentimentDataset_init [[Fin 1, Fin 0], [Fin 0, Fin 1]] [2, 7] = Inr ds"
    "labels ds = [2, 7]"
    "\<forall>i. i < length [[Fin 1, Fin 0], [Fin 0, Fin 1]] \<and> i < length [2, 7::int]
       \<longrightarrow> getitem ds (int i) = Inr ([[Fin 1, Fin 0], [Fin 0, Fin 1]] ! i, [2, 7] ! i)"
    by blast
  have "getitem ds 1 = Inr ([Fin 0, Fin 1], 7)" using ds(3) [THEN spec, of 1] by simp
  then show ?thesis using ds(1,2) by blast
qed

theorem init_admits_malformed_counterexample:
  "SentimentDataset_init [[Fin 1, Fin 0], [Fin 0, Fin 1]] [2, 7]
     = Inr \<lparr>embeddings = [[Fin 1, Fin 0], [Fin 0, Fin 1]], labels = [2, 7]\<rparr>
   \<and> \<not> (0 \<le> (7::int) \<and> (7::int) \<le> 2)
   \<and> getitem \<lparr>embeddings = [[Fin 1, Fin 0], [Fin 0, Fin 1]], labels = [2, 7]\<rparr> 1
       = Inr ([Fin 0, Fin 1], 7)"
  by (simp add: SentimentDataset_init_def getitem_def py_index_def)

section \<open>The example run\<close>

lemmas run_defs = train_batch_def fetch_def getitem_def py_index_def collate_def zero_grad_def
  forward_def forward_row_def linear_def dot_def dropout_def calculate_accuracy_def
  torch_max_indices_def eq_broadcast_def backward_def step_def
  len_dataset_def model_train_def model_eval_def evaluate_batch_def
  three_samples_def example_loader_def example_model_def true_class_loss_def counting_rule_def
  parameter_gradient_def keep_all_def

lemma example_batch_sampler: "batch_sampler example_loader [] = [[0, 1], [2]]"
  by (simp add: batch_sampler_def sampler_def example_loader_def three_samples_def len_dataset_def
      chunks.simps)

lemma example_train_metrics:
  "train_metrics true_class_loss parameter_gradient counting_rule (dataset example_loader)
     keep_all 0 (batch_sampler example_loader []) (model_train example_model, 0)
   = Inr [(Fin (- 2), Fin 1), (Fin 0, Fin 0)]"
  unfolding example_batch_sampler by (simp add: run_defs)

lemma example_evaluate_metrics:
  "evaluate_metrics true_class_loss (dataset example_loader)
     keep_all 0 (batch_sampler example_loader []) (model_eval example_model)
   = Inr [(Fin (- 1), Fin 1), (Fin 0, Fin 0)]"
  unfolding example_batch_sampler by (simp add: run_defs)

section \<open>Epoch metrics\<close>

lemma length_sampler: "valid_perm dl perm \<Longrightarrow> length (sampler dl perm) = len_dataset (dataset dl)"
proof (cases "shuffle dl")
  case True
  assume "valid_perm dl perm"
  then have "sort perm = [0..<len_dataset (dataset dl)]" using True by (simp add: valid_perm_def)
  then have "length (sort perm) = len_dataset (dataset dl)" by simp
  then show ?thesis using True by (simp add: sampler_def)
next
  case False
  then show ?thesis by (simp add: sampler_def)
qed

lemma length_batch_sampler:
  "0 < batch_size dl \<Longrightarrow> valid_perm dl perm \<Longrightarrow> length (batch_sampler dl perm) = len_dataloader dl"
  by (simp add: batch_sampler_def length_chunks length_sampler len_dataloader_def)

lemma train_loop_totals:
  "train_metrics crit ag rule ds rng k cs st = Inr las \<Longrightarrow>
   \<exists>st'. train_loop crit ag rule ds rng k cs st (l0, a0) =
     (Inr (foldl fl_add l0 (map fst las), foldl fl_add a0 (map snd las)), st')"
proof (induction cs arbitrary: k st l0 a0 las)
  case Nil
  then show ?case by simp
next
  case (Cons idxs rest)
  obtain r st1 where tb: "train_batch crit ag rule ds (rng k) idxs st = (r, st1)"
    by (cases "train_batch crit ag rule ds (rng k) idxs st") auto
  from Cons.prems tb obtain loss acc where r: "r = Inr (loss, acc)"
    by (cases r) auto
  from Cons.prems tb r obtain las' where
    las': "train_metrics crit ag rule ds rng (Suc k) rest st1 = Inr las'" and
    las: "las = (loss, acc) # las'"
    by (auto split: sum.splits)
  from Cons.IH [OF las', of "fl_add l0 loss" "fl_add a0 acc"] obtain st' where
    "train_loop crit ag rule ds rng (Suc k) rest st1 (fl_add l0 loss, fl_add a0 acc) =
      (Inr (foldl fl_add (fl_add l0 loss) (map fst las'), foldl fl_add (fl_add a0 acc) (map snd las')), st')"
    by blast
  then show ?case using tb r las by simp
qed

lemma train_metrics_length:
  "train_metrics crit ag rule ds rng k cs st = Inr las \<Longrightarrow> length las = length cs"
proof (induction cs arbitrary: k st las)
  case Nil
  then show ?case by simp
next
  case (Cons idxs rest)
  obtain r st1 where tb: "train_batch crit ag rule ds (rng k) idxs st = (r, st1)"
    by (cases "train_batch crit ag rule ds (rng k) idxs st") auto
  from Cons.prems tb obtain la las' where
    "train_metrics crit ag rule ds rng (Suc k) rest st1 = Inr las'" "las = la # las'"
    by (cases r) (auto split: sum.splits)
  then show ?case using Cons.IH by auto
qed

lemma evaluate_loop_totals:
  "evaluate_metrics crit ds rng k cs m = Inr las \<Longrightarrow>
   evaluate_loop crit ds rng k cs m (l0, a0) =
     Inr (foldl fl_add l0 (map fst las), foldl fl_add a0 (map snd las))"
proof (induction cs arbitrary: k l0 a0 las)
  case Nil
  then show ?case by simp
next
  case (Cons idxs rest)
  from Cons.prems obtain loss acc las' where
    eb: "evaluate_batch crit ds (rng k) idxs m = Inr (loss, acc)" and
    las': "evaluate_metrics crit ds rng (Suc k) rest m = Inr las'" and
    las: "las = (loss, acc) # las'"
    by (auto split: sum.splits)
  show ?case using Cons.IH [OF las'] eb las by simp
qed

lemma evaluate_metrics_length:
  "evaluate_metrics crit ds rng k cs m = Inr las \<Longrightarrow> length las = length cs"
proof (induction cs arbitrary: k las)
  case Nil
  then show ?case by simp
next
  case (Cons idxs rest)
  from Cons.prems obtain la las' where
    "evaluate_metrics crit ds rng (Suc k) rest m = Inr las'" "las = la # las'"
    by (auto split: sum.splits)
  then show ?case using Cons.IH by auto
qed

lemma truediv_pos: "0 < n \<Longrightarrow> \<exists>y. truediv x n = Inr y"
  by (cases n; cases x) simp_all

lemma epoch_result_means:
  assumes "las \<noteq> []"
  shows "\<exists>l a. arithmetic_mean (map fst las) = Inr l \<and> arithmetic_mean (map snd las) = Inr a \<and>
    epoch_result (foldl fl_add (Fin 0) (map fst las), foldl fl_add (Fin 0) (map snd las)) (length las)
      = Inr (l, a)"
proof -
  have n: "0 < length las" using assms by simp
  obtain l where l: "truediv (foldl fl_add (Fin 0) (map fst las)) (length las) = Inr l"
    using truediv_pos [OF n] by blast
  obtain a where a: "truediv (foldl fl_add (Fin 0) (map snd las)) (length las) = Inr a"
    using truediv_pos [OF n] by blast
  show ?thesis using l a by (simp add: arithmetic_mean_def epoch_result_def)
qed

lemma train_result:
  assumes b: "0 < batch_size dl" and p: "valid_perm dl perm"
    and tm: "train_metrics crit ag rule (dataset dl) rng 0 (batch_sampler dl perm) (model_train m, opt) = Inr tms"
  shows "length tms = len_dataloader dl"
    and "fst (train crit ag rule m dl opt perm rng) =
      epoch_result (foldl fl_add (Fin 0) (map fst tms), foldl fl_add (Fin 0) (map snd tms)) (length tms)"
proof -
  show len: "length tms = len_dataloader dl"
    using train_metrics_length [OF tm] length_batch_sampler [OF b p] by simp
  from train_loop_totals [OF tm, of "Fin 0" "Fin 0"] obtain st' where
    "train_loop crit ag rule (dataset dl) rng 0 (batch_sampler dl perm) (model_train m, opt) (Fin 0, Fin 0)
      = (Inr (foldl fl_add (Fin 0) (map fst tms), foldl fl_add (Fin 0) (map snd tms)), st')"
    by blast
  then show "fst (train crit ag rule m dl opt perm rng) =
      epoch_result (foldl fl_add (Fin 0) (map fst tms), foldl fl_add (Fin 0) (map snd tms)) (length tms)"
    using len by (simp add: train_def)
qed

lemma evaluate_result:
  assumes b: "0 < batch_size dl" and p: "valid_perm dl perm"
    and em: "evaluate_metrics crit (dataset dl) rng 0 (batch_sampler dl perm) (model_eval m) = Inr ems"
  shows "length ems = len_dataloader dl"
    and "fst (evaluate crit m dl perm rng) =
      epoch_result (foldl fl_add (Fin 0) (map fst ems), foldl fl_add (Fin 0) (map snd ems)) (length ems)"
proof -
  show len: "length ems = len_dataloader dl"
    using evaluate_metrics_length [OF em] length_batch_sampler [OF b p] by simp
  show "fst (evaluate crit m dl perm rng) =
      epoch_result (foldl fl_add (Fin 0) (map fst ems), foldl fl_add (Fin 0) (map snd ems)) (length ems)"
    using evaluate_loop_totals [OF em, of "Fin 0" "Fin 0"] len by (simp add: evaluate_def Let_def)
qed

lemma arithmetic_mean_finite:
  "xs \<noteq> [] \<Longrightarrow> arithmetic_mean (map Fin xs) = Inr (Fin (sum_list xs / real (length xs)))"
proof -
  have "foldl fl_add (Fin s) (map Fin xs) = Fin (s + sum_list xs)" for s
    by (induction xs arbitrary: s) (simp_all add: add.assoc)
  from this [of 0] have f: "foldl fl_add (Fin 0) (map Fin xs) = Fin (sum_list xs)" by simp
  assume "xs \<noteq> []"
  then obtain n where "length xs = Suc n" by (cases xs) auto
  then show ?thesis by (simp add: arithmetic_mean_def f)
qed

text \<open>
  Claim C7. Over a non-empty sequence of batches none of which raises, \<open>train\<close> and
  \<open>evaluate\<close> both return the arithmetic mean of the losses of the batches and the
  arithmetic mean of the accuracies of the batches: the sum of one value per batch,
  divided by the number of batches, whatever the sizes of the batches.
\<close>

theorem epoch_metrics_are_batch_means:
  assumes b: "0 < batch_size dl" and p: "valid_perm dl perm" and ne: "batch_sampler dl perm \<noteq> []"
  shows "(train_metrics crit ag rule (dataset dl) rng 0 (batch_sampler dl perm) (model_train m, opt) = Inr tms
      \<longrightarrow> length tms = len_dataloader dl \<and>
        (\<exists>l a. arithmetic_mean (map fst tms) = Inr l \<and> arithmetic_mean (map snd tms) = Inr a \<and>
           fst (train crit ag rule m dl opt perm rng) = Inr (l, a)))
    \<and> (evaluate_metrics crit (dataset dl) rng 0 (batch_sampler dl perm) (model_eval m) = Inr ems
      \<longrightarrow> length ems = len_dataloader dl \<and>
        (\<exists>l a. arithmetic_mean (map fst ems) = Inr l \<and> arithmetic_mean (map snd ems) = Inr a \<and>
           fst (evaluate crit m dl perm rng) = Inr (l, a)))"
proof (intro conjI impI)
  assume tm: "train_metrics crit ag rule (dataset dl) rng 0 (batch_sampler dl perm) (model_train m, opt) = Inr tms"
  show "length tms = len_dataloader dl" by (rule train_result(1) [OF b p tm])
  have "tms \<noteq> []" using train_metrics_length [OF tm] ne by auto
  from epoch_result_means [OF this] show
    "\<exists>l a. arithmetic_mean (map fst tms) = Inr l \<and> arithmetic_mean (map snd tms) = Inr a \<and>
           fst (train crit ag rule m dl opt perm rng) = Inr (l, a)"
    unfolding train_result(2) [OF b p tm] .
next
  assume em: "evaluate_metrics crit (dataset dl) rng 0 (batch_sampler dl perm) (model_eval m) = Inr ems"
  show "length ems = len_dataloader dl" by (rule evaluate_result(1) [OF b p em])
  have "ems \<noteq> []" using evaluate_metrics_length [OF em] ne by auto
  from epoch_result_means [OF this] show
    "\<exists>l a. arithmetic_mean (map fst ems) = Inr l \<and> arithmetic_mean (map snd ems) = Inr a \<and>
           fst (evaluate crit m dl perm rng) = Inr (l, a)"
    unfolding evaluate_result(2) [OF b p em] .
qed

theorem epoch_metrics_witness:
  "0 < batch_size example_loader \<and> batch_sampler example_loader [] \<noteq> []
   \<and> train_metrics true_class_loss parameter_gradient counting_rule (dataset example_loader)
        keep_all 0 (batch_sampler example_loader []) (model_train example_model, 0)
      = Inr [(Fin (- 2), Fin 1), (Fin 0, Fin 0)]
   \<and> fst (train true_class_loss parameter_gradient counting_rule example_model example_loader 0 []
        keep_all) = Inr (Fin (- 1), Fin (1 / 2))
   \<and> evaluate_metrics true_class_loss (dataset example_loader)
        keep_all 0 (batch_sampler example_loader []) (model_eval example_model)
      = Inr [(Fin (- 1), Fin 1), (Fin 0, Fin 0)]
   \<and> fst (evaluate true_class_loss example_model example_loader [] keep_all)
      = Inr (Fin (- 1 / 2), Fin (1 / 2))"
proof -
  have h1: "0 < batch_size example_loader" by (simp add: example_loader_def)
  have h2: "valid_perm example_loader []" by (simp add: valid_perm_def example_loader_def)
  have h3: "batch_sampler example_loader [] \<noteq> []" by (simp add: example_batch_sampler)
  note inst = epoch_metrics_are_batch_means [OF h1 h2 h3,
      of true_class_loss parameter_gradient counting_rule keep_all example_model 0
        "[(Fin (- 2), Fin 1), (Fin 0, Fin 0)]" "[(Fin (- 1), Fin 1), (Fin 0, Fin 0)]"]
  have t: "fst (train true_class_loss parameter_gradient counting_rule example_model example_loader 0 []
        keep_all) = Inr (Fin (- 1), Fin (1 / 2))"
    using inst example_train_metrics by (auto simp: arithmetic_mean_def)
  have e: "fst (evaluate true_class_loss example_model example_loader [] keep_all)
      = Inr (Fin (- 1 / 2), Fin (1 / 2))"
    using inst example_evaluate_metrics by (auto simp: arithmetic_mean_def)
  show ?thesis using h1 h3 t e example_train_metrics example_evaluate_metrics by blast
qed

section \<open>Non-finite losses\<close>

lemma fl_add_nonfinite: "\<not> is_finite x \<or> \<not> is_finite y \<Longrightarrow> \<not> is_finite (fl_add x y)"
  by (cases x; cases y) auto

lemma foldl_nonfinite_start: "\<not> is_finite s \<Longrightarrow> \<not> is_finite (foldl fl_add s xs)"
  by (induction xs arbitrary: s) (simp_all add: fl_add_nonfinite)

lemma foldl_nonfinite_member:
  "\<exists>x\<in>set xs. \<not> is_finite x \<Longrightarrow> \<not> is_finite (foldl fl_add s xs)"
proof (induction xs arbitrary: s)
  case Nil
  then show ?case by simp
next
  case (Cons x xs)
  show ?case
  proof (cases "is_finite x")
    case True
    then have "\<exists>y\<in>set xs. \<not> is_finite y" using Cons.prems by auto
    then show ?thesis using Cons.IH by simp
  next
    case False
    then have "\<not> is_finite (fl_add s x)" by (simp add: fl_add_nonfinite)
    then show ?thesis by (simp add: foldl_nonfinite_start)
  qed
qed

lemma truediv_nonfinite: "truediv x n = Inr y \<Longrightarrow> \<not> is_finite x \<Longrightarrow> \<not> is_finite y"
  by (cases n; cases x) auto

text \<open>
  Claim C1, as the code has it. \<open>train\<close> makes no finiteness check: when no batch
  raises and the loss of some batch is non-finite, the epoch is not aborted; \<open>train\<close>
  returns, and the average loss it returns is non-finite, the value having gone into the
  running sum like any other.
\<close>

theorem train_absorbs_nonfinite_loss:
  assumes b: "0 < batch_size dl" and p: "valid_perm dl perm"
    and tm: "train_metrics crit ag rule (dataset dl) rng 0 (batch_sampler dl perm) (model_train m, opt) = Inr tms"
    and nf: "\<exists>la\<in>set tms. \<not> is_finite (fst la)"
  shows "\<exists>l a. fst (train crit ag rule m dl opt perm rng) = Inr (l, a) \<and> \<not> is_finite l"
proof -
  have "tms \<noteq> []" using nf by auto
  from epoch_result_means [OF this] obtain l a where
    l: "arithmetic_mean (map fst tms) = Inr l" and
    r: "epoch_result (foldl fl_add (Fin 0) (map fst tms), foldl fl_add (Fin 0) (map snd tms)) (length tms)
          = Inr (l, a)"
    by blast
  have "\<exists>x\<in>set (map fst tms). \<not> is_finite x" using nf by auto
  then have "\<not> is_finite (foldl fl_add (Fin 0) (map fst tms))" by (rule foldl_nonfinite_member)
  then have "\<not> is_finite l" using l truediv_nonfinite by (auto simp: arithmetic_mean_def)
  then show ?thesis using r train_result(2) [OF b p tm] by auto
qed

lemma nan_batch_sampler: "batch_sampler nan_loader [] = [[0], [1]]"
  by (simp add: batch_sampler_def sampler_def nan_loader_def len_dataset_def chunks.simps)

lemma nan_train_metrics:
  "train_metrics true_class_loss parameter_gradient counting_rule (dataset nan_loader)
     keep_all 0 (batch_sampler nan_loader []) (model_train example_model, 0)
   = Inr [(Fin (- 2), Fin 1), (NaN, Fin 1)]"
  unfolding nan_batch_sampler by (simp add: run_defs nan_loader_def)

theorem train_absorbs_nonfinite_loss_witness:
  "0 < batch_size nan_loader
   \<and> train_metrics true_class_loss parameter_gradient counting_rule (dataset nan_loader)
        keep_all 0 (batch_sampler nan_loader []) (model_train example_model, 0)
      = Inr [(Fin (- 2), Fin 1), (NaN, Fin 1)]
   \<and> (\<exists>l a. fst (train true_class_loss parameter_gradient counting_rule example_model nan_loader 0 []
        keep_all) = Inr (l, a) \<and> \<not> is_finite l)"
proof -
  have h1: "0 < batch_size nan_loader" by (simp add: nan_loader_def)
  have h2: "valid_perm nan_loader []" by (simp add: valid_perm_def nan_loader_def)
  have h4: "\<exists>la\<in>set [(Fin (- 2), Fin 1), (NaN, Fin 1)]. \<not> is_finite (fst la)" by simp
  from train_absorbs_nonfinite_loss [OF h1 h2 nan_train_metrics h4]
  show ?thesis using h1 nan_train_metrics by blast
qed

theorem train_nonfinite_loss_counterexample:
  "train_metrics true_class_loss parameter_gradient counting_rule (dataset nan_loader)
        keep_all 0 (batch_sampler nan_loader []) (model_train example_model, 0)
      = Inr [(Fin (- 2), Fin 1), (NaN, Fin 1)]
   \<and> \<not> is_finite NaN
   \<and> fst (train true_class_loss parameter_gradient counting_rule example_model nan_loader 0 []
        keep_all) = Inr (NaN, Fin 1)"
proof -
  have h1: "0 < batch_size nan_loader" by (simp add: nan_loader_def)
  have h2: "valid_perm nan_loader []" by (simp add: valid_perm_def nan_loader_def)
  have "fst (train true_class_loss parameter_gradient counting_rule example_model nan_loader 0 []
        keep_all) = Inr (NaN, Fin 1)"
    unfolding train_result(2) [OF h1 h2 nan_train_metrics] by (simp add: epoch_result_def)
  then show ?thesis using nan_train_metrics by simp
qed

section \<open>Empty datasets\<close>

lemma batch_sampler_empty:
  assumes "valid_perm dl perm" "len_dataset (dataset dl) = 0"
  shows "batch_sampler dl perm = []"
proof -
  have "length (sampler dl perm) = 0" using length_sampler [OF assms(1)] assms(2) by simp
  then show ?thesis by (simp add: batch_sampler_def)
qed

lemma len_dataloader_empty: "len_dataset (dataset dl) = 0 \<Longrightarrow> len_dataloader dl = 0"
  by (cases "batch_size dl = 0") (simp_all add: len_dataloader_def)

lemma len_dataloader_pos:
  assumes "0 < len_dataset (dataset dl)" "0 < batch_size dl"
  shows "0 < len_dataloader dl"
proof -
  have "batch_size dl \<le> len_dataset (dataset dl) + batch_size dl - 1" using assms by simp
  then have "1 \<le> (len_dataset (dataset dl) + batch_size dl - 1) div batch_size dl"
    using assms(2) by (simp add: Suc_le_eq div_greater_zero_iff)
  then show ?thesis by (simp add: len_dataloader_def)
qed

lemma epoch_result_pos: "0 < n \<Longrightarrow> \<exists>r. epoch_result totals n = Inr r"
proof -
  assume n: "0 < n"
  obtain el ea where t: "totals = (el, ea)" by (cases totals)
  obtain l where l: "truediv el n = Inr l" using truediv_pos [OF n] by blast
  obtain a where a: "truediv ea n = Inr a" using truediv_pos [OF n] by blast
  show ?thesis using t l a by (simp add: epoch_result_def)
qed

lemma epoch_result_zero: "epoch_result totals 0 = Inl ZeroDivisionError"
  by (cases totals) (simp add: epoch_result_def)

lemma train_empty:
  assumes "valid_perm dl perm" "len_dataset (dataset dl) = 0"
  shows "fst (train crit ag rule m dl opt perm rng) = Inl ZeroDivisionError"
  by (simp add: train_def batch_sampler_empty [OF assms] len_dataloader_empty [OF assms(2)]
      epoch_result_zero)

lemma evaluate_empty:
  assumes "valid_perm dl perm" "len_dataset (dataset dl) = 0"
  shows "fst (evaluate crit m dl perm rng) = Inl ZeroDivisionError"
  by (simp add: evaluate_def Let_def batch_sampler_empty [OF assms] len_dataloader_empty [OF assms(2)]
      epoch_result_zero)

text \<open>
  Claim C10. On an empty dataset the loader yields no batch and \<open>len(dataloader)\<close> is
  zero, so the final division of \<open>train\<close> and of \<open>evaluate\<close> raises
  ZeroDivisionError; either function returns metrics only when the dataset has at least
  one sample; and with at least one sample (and a positive batch size) the number of
  batches is positive, the final division succeeds whatever was accumulated, and an
  epoch none of whose batches raises returns metrics.
\<close>

theorem empty_dataset_divides_by_zero:
  assumes p: "valid_perm dl perm"
  shows "(len_dataset (dataset dl) = 0 \<longrightarrow>
        fst (train crit ag rule m dl opt perm rng) = Inl ZeroDivisionError \<and>
        fst (evaluate crit m dl perm rng) = Inl ZeroDivisionError)
    \<and> ((\<exists>r. fst (train crit ag rule m dl opt perm rng) = Inr r) \<or>
        (\<exists>r. fst (evaluate crit m dl perm rng) = Inr r) \<longrightarrow> 0 < len_dataset (dataset dl))
    \<and> (0 < len_dataset (dataset dl) \<and> 0 < batch_size dl \<longrightarrow>
        0 < len_dataloader dl \<and>
        (\<forall>totals. \<exists>r. epoch_result totals (len_dataloader dl) = Inr r) \<and>
        (\<forall>tms. train_metrics crit ag rule (dataset dl) rng 0 (batch_sampler dl perm) (model_train m, opt) = Inr tms
           \<longrightarrow> (\<exists>r. fst (train crit ag rule m dl opt perm rng) = Inr r)) \<and>
        (\<forall>ems. evaluate_metrics crit (dataset dl) rng 0 (batch_sampler dl perm) (model_eval m) = Inr ems
           \<longrightarrow> (\<exists>r. fst (evaluate crit m dl perm rng) = Inr r)))"
proof (intro conjI impI allI)
  assume "len_dataset (dataset dl) = 0"
  then show "fst (train crit ag rule m dl opt perm rng) = Inl ZeroDivisionError"
    and "fst (evaluate crit m dl perm rng) = Inl ZeroDivisionError"
    using train_empty [OF p] evaluate_empty [OF p] by simp_all
next
  assume r: "(\<exists>r. fst (train crit ag rule m dl opt perm rng) = Inr r) \<or>
        (\<exists>r. fst (evaluate crit m dl perm rng) = Inr r)"
  show "0 < len_dataset (dataset dl)"
  proof (rule ccontr)
    assume "\<not> 0 < len_dataset (dataset dl)"
    then have z: "len_dataset (dataset dl) = 0" by simp
    show False using r train_empty [OF p z, of crit ag rule m opt rng]
        evaluate_empty [OF p z, of crit m rng] by auto
  qed
next
  assume "0 < len_dataset (dataset dl) \<and> 0 < batch_size dl"
  then show "0 < len_dataloader dl" using len_dataloader_pos by blast
next
  fix totals
  assume "0 < len_dataset (dataset dl) \<and> 0 < batch_size dl"
  then have "0 < len_dataloader dl" using len_dataloader_pos by blast
  then show "\<exists>r. epoch_result totals (len_dataloader dl) = Inr r" by (rule epoch_result_pos)
next
  fix tms
  assume nb: "0 < len_dataset (dataset dl) \<and> 0 < batch_size dl"
    and tm: "train_metrics crit ag rule (dataset dl) rng 0 (batch_sampler dl perm) (model_train m, opt) = Inr tms"
  from nb have b: "0 < batch_size dl" and pos: "0 < len_dataloader dl"
    using len_dataloader_pos by blast+
  have "0 < length tms" using train_result(1) [OF b p tm] pos by simp
  then show "\<exists>r. fst (train crit ag rule m dl opt perm rng) = Inr r"
    unfolding train_result(2) [OF b p tm] by (rule epoch_result_pos)
next
  fix ems
  assume nb: "0 < len_dataset (dataset dl) \<and> 0 < batch_size dl"
    and em: "evaluate_metrics crit (dataset dl) rng 0 (batch_sampler dl perm) (model_eval m) = Inr ems"
  from nb have b: "0 < batch_size dl" and pos: "0 < len_dataloader dl"
    using len_dataloader_pos by blast+
  have "0 < length ems" using evaluate_result(1) [OF b p em] pos by simp
  then show "\<exists>r. fst (evaluate crit m dl perm rng) = Inr r"
    unfolding evaluate_result(2) [OF b p em] by (rule epoch_result_pos)
qed

theorem empty_dataset_divides_by_zero_witness:
  "len_dataset (dataset empty_loader) = 0
   \<and> fst (train true_class_loss parameter_gradient counting_rule example_model empty_loader (0::nat) []
        keep_all) = Inl ZeroDivisionError
   \<and> fst (evaluate true_class_loss example_model empty_loader [] keep_all) = Inl ZeroDivisionError
   \<and> 0 < len_dataset (dataset example_loader)
   \<and> 0 < batch_size example_loader \<and> 0 < len_dataloader example_loader
   \<and> (\<exists>r. fst (train true_class_loss parameter_gradient counting_rule example_model example_loader
        (0::nat) [] keep_all) = Inr r)
   \<and> (\<exists>r. fst (evaluate true_class_loss example_model example_loader [] keep_all) = Inr r)"
proof -
  have e1: "valid_perm empty_loader []" by (simp add: valid_perm_def empty_loader_def)
  have e2: "len_dataset (dataset empty_loader) = 0" by (simp add: empty_loader_def len_dataset_def)
  have x1: "valid_perm example_loader []" by (simp add: valid_perm_def example_loader_def)
  have x2: "0 < len_dataset (dataset example_loader)"
    by (simp add: example_loader_def three_samples_def len_dataset_def)
  have x3: "0 < batch_size example_loader" by (simp add: example_loader_def)
  note empty = empty_dataset_divides_by_zero [OF e1,
      of true_class_loss parameter_gradient counting_rule example_model "0::nat" keep_all]
  note full = empty_dataset_divides_by_zero [OF x1,
      of true_class_loss parameter_gradient counting_rule example_model "0::nat" keep_all]
  show ?thesis
    using e2 x2 x3 empty full example_train_metrics example_evaluate_metrics by blast
qed

section \<open>Evaluation\<close>

lemma forward_row_eval:
  "parameters m1 = parameters m2 \<Longrightarrow>
   forward_row (model_eval m1) k1 x = forward_row (model_eval m2) k2 x"
  by (simp add: forward_row_def model_eval_def dropout_def Let_def split: sum.splits)

lemma forward_eval:
  "parameters m1 = parameters m2 \<Longrightarrow>
   forward (model_eval m1) keep1 xs = forward (model_eval m2) keep2 xs"
proof -
  assume eq: "parameters m1 = parameters m2"
  have "(\<lambda>(i, x). forward_row (model_eval m1) (keep1 i) x)
      = (\<lambda>(i, x). forward_row (model_eval m2) (keep2 i) x)"
    using forward_row_eval [OF eq] by (auto simp: fun_eq_iff)
  then show ?thesis by (simp add: forward_def)
qed

lemma evaluate_batch_eval:
  "parameters m1 = parameters m2 \<Longrightarrow>
   evaluate_batch crit ds keep1 idxs (model_eval m1) = evaluate_batch crit ds keep2 idxs (model_eval m2)"
proof -
  assume "parameters m1 = parameters m2"
  then have "forward (model_eval m1) keep1 = forward (model_eval m2) keep2"
    using forward_eval by blast
  then show ?thesis by (simp add: evaluate_batch_def split: sum.splits prod.splits)
qed

lemma evaluate_loop_eval:
  "parameters m1 = parameters m2 \<Longrightarrow>
   evaluate_loop crit ds rng1 k1 cs (model_eval m1) totals
     = evaluate_loop crit ds rng2 k2 cs (model_eval m2) totals"
proof (induction cs arbitrary: k1 k2 totals)
  case Nil
  then show ?case by (cases totals) simp
next
  case (Cons idxs rest)
  obtain el ea where t: "totals = (el, ea)" by (cases totals)
  have b: "evaluate_batch crit ds (rng1 k1) idxs (model_eval m1)
      = evaluate_batch crit ds (rng2 k2) idxs (model_eval m2)"
    using Cons.prems by (rule evaluate_batch_eval)
  show ?case unfolding t using b Cons.IH [OF Cons.prems]
    by (simp split: sum.splits prod.splits)
qed

text \<open>
  Claim C3, as the code has it. Two calls of \<open>evaluate\<close> on models with the same
  parameters and on the same loader return the same result when the batches come in the
  same order in both calls, which is always so for a loader that does not shuffle (as
  the test loader of the notebook): the loss and accuracy, or the exception, do not
  depend on the dropout draws, on the mode the model was in before the call, on its
  dropout probability or on its stored gradients. On a loader that shuffles, two calls
  may draw different orders and then return different results, since a batch counts the
  same whatever its size.
\<close>

theorem evaluate_deterministic:
  assumes "\<not> shuffle dl \<or> perm1 = perm2" and "parameters m1 = parameters m2"
  shows "fst (evaluate crit m1 dl perm1 rng1) = fst (evaluate crit m2 dl perm2 rng2)"
proof -
  have s: "batch_sampler dl perm1 = batch_sampler dl perm2"
    using assms(1) by (auto simp: batch_sampler_def sampler_def)
  have "evaluate_loop crit (dataset dl) rng1 0 (batch_sampler dl perm2) (model_eval m1) (Fin 0, Fin 0)
      = evaluate_loop crit (dataset dl) rng2 0 (batch_sampler dl perm2) (model_eval m2) (Fin 0, Fin 0)"
    using assms(2) by (rule evaluate_loop_eval)
  then show ?thesis by (simp add: evaluate_def Let_def s split: sum.splits)
qed

theorem evaluate_deterministic_witness:
  "\<not> shuffle example_loader
   \<and> parameters example_model = parameters (example_model\<lparr>training := True, dropout_prob := 9 / 10\<rparr>)
   \<and> fst (evaluate true_class_loss example_model example_loader [] keep_all)
       = Inr (Fin (- 1 / 2), Fin (1 / 2))
   \<and> fst (evaluate true_class_loss (example_model\<lparr>training := True, dropout_prob := 9 / 10\<rparr>)
         example_loader [2, 0, 1] drop_all) = Inr (Fin (- 1 / 2), Fin (1 / 2))"
proof -
  have h0: "\<not> shuffle example_loader" by (simp add: example_loader_def)
  then have h1: "\<not> shuffle example_loader \<or> [] = [2, 0, 1::nat]" by simp
  have h2: "parameters example_model
      = parameters (example_model\<lparr>training := True, dropout_prob := 9 / 10\<rparr>)" by simp
  have x1: "valid_perm example_loader []" by (simp add: valid_perm_def example_loader_def)
  have x3: "0 < batch_size example_loader" by (simp add: example_loader_def)
  have a: "fst (evaluate true_class_loss example_model example_loader [] keep_all)
       = Inr (Fin (- 1 / 2), Fin (1 / 2))"
    unfolding evaluate_result(2) [OF x3 x1 example_evaluate_metrics]
    by (simp add: epoch_result_def)
  show ?thesis
    using h0 h2 a evaluate_deterministic [OF h1 h2, of true_class_loss keep_all drop_all]
    by simp
qed

lemma shuffled_batch_sampler:
  "batch_sampler shuffling_loader [0, 1, 2] = [[0, 1], [2]]"
  "batch_sampler shuffling_loader [0, 2, 1] = [[0, 2], [1]]"
  by (simp_all add: batch_sampler_def sampler_def shuffling_loader_def chunks.simps)

lemma shuffled_evaluate_metrics:
  "evaluate_metrics true_class_loss (dataset shuffling_loader)
     keep_all 0 (batch_sampler shuffling_loader [0, 1, 2]) (model_eval example_model)
   = Inr [(Fin (- 1), Fin 1), (Fin 0, Fin 0)]"
  "evaluate_metrics true_class_loss (dataset shuffling_loader)
     keep_all 0 (batch_sampler shuffling_loader [0, 2, 1]) (model_eval example_model)
   = Inr [(Fin (- 1 / 2), Fin (1 / 2)), (Fin (- 1), Fin 1)]"
  unfolding shuffled_batch_sampler by (simp_all add: run_defs shuffling_loader_def)

theorem evaluate_shuffled_counterexample:
  "shuffle shuffling_loader
   \<and> sort [0, 1, 2 :: nat] = [0, 1, 2] \<and> sort [0, 2, 1 :: nat] = [0, 1, 2]
   \<and> fst (evaluate true_class_loss example_model shuffling_loader [0, 1, 2] keep_all)
       = Inr (Fin (- 1 / 2), Fin (1 / 2))
   \<and> fst (evaluate true_class_loss example_model shuffling_loader [0, 2, 1] keep_all)
       = Inr (Fin (- 3 / 4), Fin (3 / 4))"
proof -
  have s: "shuffle shuffling_loader" by (simp add: shuffling_loader_def)
  have b: "0 < batch_size shuffling_loader" by (simp add: shuffling_loader_def)
  have n: "len_dataset (dataset shuffling_loader) = 3"
    by (simp add: shuffling_loader_def three_samples_def len_dataset_def)
  have u: "[0..<3] = [0, 1, 2 :: nat]" by (simp add: upt_conv_Cons)
  have p1: "valid_perm shuffling_loader [0, 1, 2]" by (simp add: valid_perm_def n u)
  have p2: "valid_perm shuffling_loader [0, 2, 1]" by (simp add: valid_perm_def n u)
  have a: "fst (evaluate true_class_loss example_model shuffling_loader [0, 1, 2] keep_all)
       = Inr (Fin (- 1 / 2), Fin (1 / 2))"
    unfolding evaluate_result(2) [OF b p1 shuffled_evaluate_metrics(1)]
    by (simp add: epoch_result_def)
  have c: "fst (evaluate true_class_loss example_model shuffling_loader [0, 2, 1] keep_all)
       = Inr (Fin (- 3 / 4), Fin (3 / 4))"
    unfolding evaluate_result(2) [OF b p2 shuffled_evaluate_metrics(2)]
    by (simp add: epoch_result_def)
  show ?thesis using s a c by simp
qed

text \<open>
  Claim C6. \<open>evaluate\<close> leaves the weights and biases of the model, their stored
  gradients and the dropout probability as they were, whether it returns or raises; and
  the call of the training loop leaves the optimizer and both loaders, with their
  datasets, as they were.
\<close>

theorem evaluate_changes_no_parameter:
  "parameters (snd (evaluate crit m dl perm rng)) = parameters m
   \<and> grad (snd (evaluate crit m dl perm rng)) = grad m
   \<and> dropout_prob (snd (evaluate crit m dl perm rng)) = dropout_prob m
   \<and> parameters (nb_model (snd (notebook_evaluate crit perm rng nb))) = parameters (nb_model nb)
   \<and> grad (nb_model (snd (notebook_evaluate crit perm rng nb))) = grad (nb_model nb)
   \<and> nb_optimizer (snd (notebook_evaluate crit perm rng nb)) = nb_optimizer nb
   \<and> nb_test_dataloader (snd (notebook_evaluate crit perm rng nb)) = nb_test_dataloader nb
   \<and> nb_train_dataloader (snd (notebook_evaluate crit perm rng nb)) = nb_train_dataloader nb"
proof -
  have e: "snd (evaluate crit m dl perm rng) = model_eval m" for m dl
    by (simp add: evaluate_def Let_def split: sum.splits)
  have n: "snd (notebook_evaluate crit perm rng nb)
      = nb\<lparr>nb_model := snd (evaluate crit (nb_model nb) (nb_test_dataloader nb) perm rng)\<rparr>"
    by (simp add: notebook_evaluate_def split: prod.splits)
  show ?thesis unfolding n e by (simp add: model_eval_def)
qed

section \<open>Predicted class and accuracy\<close>

lemma fl_le_trans: "fl_le x y \<Longrightarrow> fl_le y z \<Longrightarrow> fl_le x z"
  by (cases x; cases y; cases z) auto

lemma fl_le_total: "\<not> is_nan x \<Longrightarrow> \<not> is_nan y \<Longrightarrow> fl_le x y \<or> fl_le y x"
  by (cases x; cases y) auto

lemma fl_le_refl: "\<not> is_nan x \<Longrightarrow> fl_le x x"
  by (cases x) auto

lemma fl_le_not_nan: "fl_le x y \<Longrightarrow> \<not> is_nan x \<and> \<not> is_nan y"
  by (cases x; cases y) auto

lemma first_max_iff:
  "first_max row k \<longleftrightarrow>
     k < length row \<and> (\<forall>j<length row. not_above (row ! j) (row ! k)) \<and>
     (\<forall>j<k. \<not> not_above (row ! k) (row ! j))"
  by (auto simp: first_max_def list_all_iff)

lemma max_loop_first_max:
  assumes "row = pre @ vs" "length pre = i" "idx < length row" "idx \<le> i" "mx = row ! idx"
    and "\<forall>j<i. fl_le (row ! j) mx" "\<forall>j<idx. \<not> fl_le mx (row ! j)"
  shows "first_max row (max_loop mx idx i vs)"
  using assms
proof (induction vs arbitrary: pre i idx mx)
  case Nil
  then have len: "i = length row" by simp
  have a: "\<forall>j<length row. not_above (row ! j) (row ! idx)"
    using Nil.prems(5,6) len by (simp add: not_above_def)
  have b: "\<forall>j<idx. \<not> not_above (row ! idx) (row ! j)"
  proof (intro allI impI)
    fix j assume j: "j < idx"
    then have "fl_le (row ! j) mx" using Nil.prems(4,6) by simp
    then have "\<not> is_nan (row ! j)" using fl_le_not_nan by blast
    then show "\<not> not_above (row ! idx) (row ! j)"
      using Nil.prems(5,7) j by (simp add: not_above_def)
  qed
  show ?case using Nil.prems(3) a b by (simp add: first_max_iff)
next
  case (Cons v vs)
  have v: "v = row ! i" and i: "i < length row" using Cons.prems(1,2) by auto
  have row': "row = (pre @ [v]) @ vs" "length (pre @ [v]) = Suc i" using Cons.prems(1,2) by auto
  show ?case
  proof (cases "fl_le v mx")
    case True
    have "\<forall>j<Suc i. fl_le (row ! j) mx"
      using Cons.prems(6) True v by (auto simp: less_Suc_eq)
    then have "first_max row (max_loop mx idx (Suc i) vs)"
      using Cons.IH [OF row' Cons.prems(3) _ Cons.prems(5) _ Cons.prems(7)] Cons.prems(4) by simp
    then show ?thesis using True by simp
  next
    case False
    show ?thesis
    proof (cases "is_nan v")
      case True
      have "v = NaN" using True by (cases v) simp_all
      then have vn: "row ! i = NaN" using v by simp
      have "\<forall>j<i. \<not> is_nan (row ! j)" using Cons.prems(6) fl_le_not_nan by blast
      then have "first_max row i"
        using i vn by (simp add: first_max_iff not_above_def)
      then show ?thesis using False True by simp
    next
      case nn: False
      have a: "\<forall>j<Suc i. fl_le (row ! j) v"
      proof (intro allI impI)
        fix j assume "j < Suc i"
        then consider "j = i" | "j < i" by linarith
        then show "fl_le (row ! j) v"
        proof cases
          case 1
          then show ?thesis using v nn fl_le_refl by simp
        next
          case 2
          then have le: "fl_le (row ! j) mx" using Cons.prems(6) by simp
          then have "\<not> is_nan mx" using fl_le_not_nan by blast
          then have "fl_le mx v" using False nn fl_le_total by blast
          then show ?thesis using le fl_le_trans by blast
        qed
      qed
      have b: "\<forall>j<i. \<not> fl_le v (row ! j)"
        using Cons.prems(6) False fl_le_trans by blast
      have "first_max row (max_loop v i (Suc i) vs)"
        using Cons.IH [OF row' i _ v a b] by simp
      then show ?thesis using False nn by simp
    qed
  qed
qed

lemma torch_max_index_first_max:
  assumes "row \<noteq> []"
  shows "\<exists>k. torch_max_index row = Inr k \<and> first_max row k"
proof -
  obtain v vs where r: "row = v # vs" using assms by (cases row) auto
  have "first_max row (max_loop v 0 0 (v # vs))"
    by (rule max_loop_first_max [where pre = "[]"]) (simp_all add: r)
  then show ?thesis using r by simp
qed

lemma torch_max_indices_first_max:
  assumes "\<forall>row\<in>set predictions. row \<noteq> []"
  shows "\<exists>cls. torch_max_indices predictions = Inr cls \<and> length cls = length predictions
    \<and> (\<forall>i<length predictions. first_max (predictions ! i) (cls ! i))"
  using assms
proof (induction predictions)
  case Nil
  then show ?case by (simp add: torch_max_indices_def)
next
  case (Cons row rest)
  from Cons.prems obtain k where k: "torch_max_index row = Inr k" "first_max row k"
    using torch_max_index_first_max [of row] by auto
  from Cons obtain cls where cls: "torch_max_indices rest = Inr cls" "length cls = length rest"
    "\<forall>i<length rest. first_max (rest ! i) (cls ! i)"
    by auto
  have "torch_max_indices (row # rest) = Inr (k # cls)"
    using k(1) cls(1) by (simp add: torch_max_indices_def)
  moreover have "\<forall>i<length (row # rest). first_max ((row # rest) ! i) ((k # cls) ! i)"
    using k(2) cls(3) by (auto simp: nth_Cons split: nat.splits)
  ultimately show ?case using cls(2) by auto
qed

lemma count_hits:
  "length cls = length labs \<Longrightarrow>
   length (filter id (map2 (\<lambda>p l. int p = l) cls labs))
     = length (filter (\<lambda>(c, l). int c = l) (zip cls labs))"
  by (simp add: filter_map comp_def case_prod_unfold)

text \<open>
  Claim C8. For a batch of score rows, one per label, the predicted class of each row is
  its argmax with ties broken by the lowest index: no score of the row is above the one
  at the predicted index and every score before it is strictly below (\<open>not_above\<close> is
  \<open><=\<close> on numbers, and ranks a NaN score highest, as \<open>torch.max\<close> does). The
  accuracy of the batch is the number of samples whose predicted class equals the
  label, divided by the number of samples, and it lies between 0 and 1.
\<close>

theorem predicted_class_and_accuracy:
  assumes len: "length predictions = length labs" and ne: "labs \<noteq> []"
    and rows: "\<forall>row\<in>set predictions. row \<noteq> []"
  shows "\<exists>cls a. torch_max_indices predictions = Inr cls \<and> length cls = length labs
    \<and> (\<forall>i<length labs. first_max (predictions ! i) (cls ! i))
    \<and> calculate_accuracy predictions labs = Inr (Fin a)
    \<and> a = real (length (filter (\<lambda>(c, l). int c = l) (zip cls labs))) / real (length labs)
    \<and> 0 \<le> a \<and> a \<le> 1"
proof -
  from torch_max_indices_first_max [OF rows] obtain cls where
    cls: "torch_max_indices predictions = Inr cls" "length cls = length predictions"
      "\<forall>i<length predictions. first_max (predictions ! i) (cls ! i)"
    by blast
  let ?hits = "length (filter (\<lambda>(c, l). int c = l) (zip cls labs))"
  let ?a = "real ?hits / real (length labs)"
  have cl: "length cls = length labs" using cls(2) len by simp
  obtain n where n: "length labs = Suc n" using ne by (cases labs) auto
  have acc: "calculate_accuracy predictions labs = Inr (Fin ?a)"
    using cls(1) cl n by (simp add: calculate_accuracy_def eq_broadcast_def count_hits)
  have "?hits \<le> length (zip cls labs)" by (rule length_filter_le)
  then have le: "?hits \<le> length labs" using cl by simp
  have pos: "0 < real (length labs)" using n by simp
  have b: "0 \<le> ?a \<and> ?a \<le> 1" using le pos by (simp add: divide_le_eq)
  show ?thesis using cls(1) cl cls(3) len acc b by auto
qed

theorem predicted_class_and_accuracy_witness:
  "length [[Fin 1, Fin 3, Fin 3], [Fin 2, Fin 0, Fin 1]] = length [1, 2 :: int]
   \<and> [1, 2 :: int] \<noteq> []
   \<and> torch_max_indices [[Fin 1, Fin 3, Fin 3], [Fin 2, Fin 0, Fin 1]] = Inr [1, 0]
   \<and> calculate_accuracy [[Fin 1, Fin 3, Fin 3], [Fin 2, Fin 0, Fin 1]] [1, 2] = Inr (Fin (1 / 2))"
proof -
  have h1: "length [[Fin 1, Fin 3, Fin 3], [Fin 2, Fin 0, Fin 1]] = length [1, 2 :: int]" by simp
  have h2: "[1, 2 :: int] \<noteq> []" by simp
  have h3: "\<forall>row\<in>set [[Fin 1, Fin 3, Fin 3], [Fin 2, Fin 0, Fin 1]]. row \<noteq> []" by simp
  have t: "torch_max_indices [[Fin 1, Fin 3, Fin 3], [Fin 2, Fin 0, Fin 1]] = Inr [1, 0]"
    by (simp add: torch_max_indices_def)
  from predicted_class_and_accuracy [OF h1 h2 h3] t
  have "calculate_accuracy [[Fin 1, Fin 3, Fin 3], [Fin 2, Fin 0, Fin 1]] [1, 2] = Inr (Fin (1 / 2))"
    by auto
  then show ?thesis using h1 h2 t by blast
qed

section \<open>Prediction\<close>

lemma linear_shape:
  assumes "list_all (\<lambda>r. length r = length x) W" "length b = length W"
  shows "\<exists>ys. linear W b x = Inr ys \<and> length ys = length W"
  using assms by (simp add: linear_def)

lemma length_dropout: "length (dropout p t keep h) = length h"
  by (simp add: dropout_def)

lemma forward_row_shape:
  assumes "well_shaped m (length x)"
  shows "\<exists>logits. forward_row m keep x = Inr logits \<and> length logits = output_dim m"
proof -
  let ?p = "parameters m"
  from assms have w1: "list_all (\<lambda>r. length r = length x) (fc1_weight ?p)"
    and b1: "length (fc1_bias ?p) = length (fc1_weight ?p)"
    and w2: "list_all (\<lambda>r. length r = length (fc1_weight ?p)) (fc2_weight ?p)"
    and b2: "length (fc2_bias ?p) = length (fc2_weight ?p)"
    by (simp_all add: well_shaped_def)
  from linear_shape [OF w1 b1] obtain out1 where
    o1: "linear (fc1_weight ?p) (fc1_bias ?p) x = Inr out1" "length out1 = length (fc1_weight ?p)"
    by blast
  let ?out3 = "dropout (dropout_prob m) (training m) keep (map relu out1)"
  have "length ?out3 = length (fc1_weight ?p)" using o1(2) by (simp add: length_dropout)
  then have "list_all (\<lambda>r. length r = length ?out3) (fc2_weight ?p)" using w2 by simp
  from linear_shape [OF this b2] obtain logits where
    "linear (fc2_weight ?p) (fc2_bias ?p) ?out3 = Inr logits" "length logits = length (fc2_weight ?p)"
    by blast
  then show ?thesis using o1(1) by (simp add: forward_row_def Let_def output_dim_def)
qed

lemma sentiment_map_inv_table:
  "sentiment_map_inv k =
     (if k = 2 then Some ''positive'' else if k = 1 then Some ''neutral''
      else if k = 0 then Some ''negative'' else None)"
  by (simp add: sentiment_map_inv_def dict_inv_def sentiment_map_def)

lemma snd_predict_sentiment:
  "snd (predict_sentiment m encode pre sentence map_inv keep) = model_eval m"
  by (simp add: predict_sentiment_def Let_def split: sum.splits option.splits)

text \<open>
  Claim C9. For a model shaped as \<open>nn.Linear\<close> builds it, with three outputs and an
  input width that is the width of the encoder's embedding, \<open>predict_sentiment\<close>
  called with \<open>sentiment_map_inv\<close> returns, for every sentence, one of the three labels
  negative, neutral and positive: the label that the table
  \<open>{0: negative, 1: neutral, 2: positive}\<close>, which is one-to-one, gives for the argmax
  (lowest index first) of the three scores of the model in evaluation mode; and the call
  leaves the parameters of the model as they were.
\<close>

theorem predict_sentiment_returns_label:
  assumes ws: "well_shaped m (length (encode (pre sentence)))" and od: "output_dim m = 3"
  shows "\<exists>logits k label.
      forward (model_eval m) keep [encode (pre sentence)] = Inr [logits]
    \<and> length logits = 3 \<and> first_max logits k
    \<and> sentiment_map_inv (int k) = Some label
    \<and> fst (predict_sentiment m encode pre sentence sentiment_map_inv keep) = Inr label
    \<and> label \<in> {''negative'', ''neutral'', ''positive''}
    \<and> parameters (snd (predict_sentiment m encode pre sentence sentiment_map_inv keep)) = parameters m
    \<and> sentiment_map_inv 0 = Some ''negative'' \<and> sentiment_map_inv 1 = Some ''neutral''
    \<and> sentiment_map_inv 2 = Some ''positive'' \<and> dom sentiment_map_inv = {0, 1, 2}
    \<and> inj_on sentiment_map_inv {0, 1, 2}"
proof -
  let ?x = "encode (pre sentence)"
  have "well_shaped (model_eval m) (length ?x)" using ws by (simp add: well_shaped_def model_eval_def)
  from forward_row_shape [OF this, of "keep 0"] obtain logits where
    fr: "forward_row (model_eval m) (keep 0) ?x = Inr logits" and
    ll: "length logits = 3"
    using od by (auto simp: output_dim_def model_eval_def)
  have fw: "forward (model_eval m) keep [?x] = Inr [logits]" using fr by (simp add: forward_def)
  have "logits \<noteq> []" using ll by auto
  from torch_max_index_first_max [OF this] obtain k where
    k: "torch_max_index logits = Inr k" "first_max logits k" by blast
  then have "k < 3" using ll by (simp add: first_max_iff)
  then have kk: "k = 0 \<or> k = 1 \<or> k = 2" by linarith
  have "\<exists>label. sentiment_map_inv (int k) = Some label
      \<and> label \<in> {''negative'', ''neutral'', ''positive''}"
  proof -
    from kk consider "k = 0" | "k = 1" | "k = 2" by blast
    then show ?thesis by cases (simp_all add: sentiment_map_inv_table)
  qed
  then obtain label where lab: "sentiment_map_inv (int k) = Some label"
    "label \<in> {''negative'', ''neutral'', ''positive''}"
    by blast
  have ps: "fst (predict_sentiment m encode pre sentence sentiment_map_inv keep) = Inr label"
    using fw k(1) lab(1) by (simp add: predict_sentiment_def Let_def torch_max_indices_def)
  have par: "parameters (snd (predict_sentiment m encode pre sentence sentiment_map_inv keep)) = parameters m"
    by (simp add: snd_predict_sentiment model_eval_def)
  have d: "dom sentiment_map_inv = {0, 1, 2}"
  proof (rule set_eqI)
    fix k :: int
    show "k \<in> dom sentiment_map_inv \<longleftrightarrow> k \<in> {0, 1, 2}"
      by (simp add: dom_def sentiment_map_inv_table)
  qed
  have inj: "inj_on sentiment_map_inv {0, 1, 2}"
    by (simp add: inj_on_def sentiment_map_inv_table)
  have t: "sentiment_map_inv 0 = Some ''negative''" "sentiment_map_inv 1 = Some ''neutral''"
    "sentiment_map_inv 2 = Some ''positive''"
    by (simp_all add: sentiment_map_inv_table)
  show ?thesis using fw ll k(2) lab ps par d inj t by blast
qed

theorem predict_sentiment_witness:
  "well_shaped example_model (length (length_encoder (id ''fine''))) \<and> output_dim example_model = 3
   \<and> fst (predict_sentiment example_model length_encoder id ''fine'' sentiment_map_inv (keep_all 0))
       = Inr ''negative''
   \<and> parameters (snd (predict_sentiment example_model length_encoder id ''fine'' sentiment_map_inv
        (keep_all 0))) = parameters example_model"
proof -
  have h1: "well_shaped example_model (length (length_encoder (id ''fine'')))"
    by (simp add: well_shaped_def example_model_def length_encoder_def)
  have h2: "output_dim example_model = 3" by (simp add: output_dim_def example_model_def)
  have v: "fst (predict_sentiment example_model length_encoder id ''fine'' sentiment_map_inv (keep_all 0))
       = Inr ''negative''"
    by (simp add: predict_sentiment_def Let_def model_eval_def forward_def forward_row_def linear_def
        dot_def dropout_def torch_max_indices_def example_model_def length_encoder_def
        sentiment_map_inv_table)
  from predict_sentiment_returns_label [where m = example_model and encode = length_encoder
      and pre = id and sentence = "''fine''" and keep = "keep_all 0", OF h1 h2]
  have "parameters (snd (predict_sentiment example_model length_encoder id ''fine'' sentiment_map_inv
        (keep_all 0))) = parameters example_model"
    by blast
  then show ?thesis using h1 h2 v by blast
qed

end
